theory Spec2Isabelle
  imports Complex_Main "HOL-Library.Multiset" "HOL-Library.Sublist"
begin

section \<open>The ForestSens client (ForestSensAPI/api.py)\<close>

text \<open>
  The client is a Python class whose methods call three external systems: the job-control
  REST service (through \<open>requests\<close>), the local file system (through \<open>os\<close>) and the object
  store (through the OCI \<open>UploadManager\<close>). The model is a shallow embedding: every method is
  a function of an environment \<open>env\<close> that holds the answers of the external systems, and
  returns what the method returns or raises together with the effects it had, in order.
  An exception is a value of type \<open>exn\<close>; a call that raises returns \<open>Inl e\<close>.
\<close>

subsection \<open>Exceptions and JSON values\<close>

text \<open>
  The exception classes the code raises itself (\<open>ImportError\<close>, \<open>ValueError\<close>, with the
  message of the source), those Python raises for the operations the code performs
  (\<open>IndexError\<close> for a list index out of range, \<open>KeyError\<close> for a missing dictionary key,
  \<open>TypeError\<close> and \<open>AttributeError\<close> for a value of the wrong type, \<open>ZeroDivisionError\<close>,
  \<open>FileNotFoundError\<close> for a path that is not there), \<open>RequestException\<close> for
  \<open>requests.exceptions.RequestException\<close> and its subclasses, and \<open>OtherException\<close> for
  any other subclass of \<open>Exception\<close> that external code raises.
\<close>

datatype exn =
    ImportError string
  | ValueError string
  | IndexError
  | KeyError string
  | TypeError
  | AttributeError
  | ZeroDivisionError
  | FileNotFoundError string
  | RequestException string
  | OtherException string

fun is_RequestException :: "exn \<Rightarrow> bool" where
  "is_RequestException (RequestException m) = True"
| "is_RequestException e = False"

datatype json =
    JNull
  | JBool bool
  | JNum int
  | JStr string
  | JList "json list"
  | JObj "(string \<times> json) list"

text \<open>\<open>d[key]\<close> with a string key: only a dictionary can be subscripted by a string.\<close>

fun subscript :: "json \<Rightarrow> string \<Rightarrow> exn + json" where
  "subscript (JObj kvs) k = (case map_of kvs k of None \<Rightarrow> Inl (KeyError k) | Some v \<Rightarrow> Inr v)"
| "subscript j k = Inl TypeError"

text \<open>\<open>d.get(key, default)\<close>: a method of dictionaries only.\<close>

fun dict_get :: "json \<Rightarrow> string \<Rightarrow> json \<Rightarrow> exn + json" where
  "dict_get (JObj kvs) k d = (case map_of kvs k of None \<Rightarrow> Inr d | Some v \<Rightarrow> Inr v)"
| "dict_get j k d = Inl AttributeError"

text \<open>Python's truth value of a JSON value (\<open>if not par_url\<close>).\<close>

fun truthy :: "json \<Rightarrow> bool" where
  "truthy JNull = False"
| "truthy (JBool b) = b"
| "truthy (JNum n) = (n \<noteq> 0)"
| "truthy (JStr s) = (s \<noteq> [])"
| "truthy (JList xs) = (xs \<noteq> [])"
| "truthy (JObj kvs) = (kvs \<noteq> [])"

text \<open>
  \<open>for x in v\<close>: a list yields its items, a string its characters, a dictionary its keys;
  nothing else is iterable.
\<close>

fun iter :: "json \<Rightarrow> exn + json list" where
  "iter (JList xs) = Inr xs"
| "iter (JStr s) = Inr (map (\<lambda>c. JStr [c]) s)"
| "iter (JObj kvs) = Inr (map (\<lambda>kv. JStr (fst kv)) kvs)"
| "iter j = Inl TypeError"

subsection \<open>String operations of the upload-target parser\<close>

definition slash :: char where
  "slash = CHR ''/''"

definition backslash :: char where
  "backslash = CHR 0x5C"

text \<open>\<open>s.strip('/')\<close>, \<open>s.rstrip('/')\<close>, \<open>s.split('/')\<close>, \<open>'/'.join(xs)\<close>.\<close>

definition rstrip :: "char \<Rightarrow> string \<Rightarrow> string" where
  "rstrip c s = rev (dropWhile (\<lambda>x. x = c) (rev s))"

definition strip :: "char \<Rightarrow> string \<Rightarrow> string" where
  "strip c s = rstrip c (dropWhile (\<lambda>x. x = c) s)"

fun split :: "char \<Rightarrow> string \<Rightarrow> string list" where
  "split c [] = [[]]"
| "split c (x # xs) =
     (if x = c then [] # split c xs
      else (case split c xs of [] \<Rightarrow> [[x]] | y # ys \<Rightarrow> (x # y) # ys))"

fun join :: "char \<Rightarrow> string list \<Rightarrow> string" where
  "join c [] = []"
| "join c [x] = x"
| "join c (x # y # ys) = x @ c # join c (y # ys)"

text \<open>\<open>xs[i]\<close> for a constant \<open>i \<ge> 0\<close>: Python raises IndexError out of range.\<close>

definition index :: "'a list \<Rightarrow> nat \<Rightarrow> exn + 'a" where
  "index xs i = (if i < length xs then Inr (xs ! i) else Inl IndexError)"

text \<open>\<open>s.replace("\\", "/")\<close>.\<close>

definition replace_backslash :: "string \<Rightarrow> string" where
  "replace_backslash s = map (\<lambda>c. if c = backslash then slash else c) s"

subsection \<open>Effects\<close>

datatype http_method = GET | POST

text \<open>
  The four URL shapes of the job-control service, below the client's \<open>base_url\<close>:
  \<open>/batches\<close>, \<open>/algorithms\<close>, \<open>/batches/{batch_id}\<close>, \<open>/batches/{batch_id}/results\<close>.
\<close>

datatype endpoint = Batches | Algorithms | Batch json | BatchResults json

datatype level = INFO | ERROR

text \<open>The log messages of the source, one constructor for each format string.\<close>

datatype message =
    Failed_to_get_batches exn
  | Failed_to_get_algorithms exn
  | Failed_to_initialize_batch exn
  | Failed_to_start_batch json exn
  | Failed_to_get_status json exn
  | Failed_to_get_results json exn
  | Downloading string
  | Saved_to string
  | Failed_to_download string exn
  | Uploading_n_files nat string string string
  | Failed_to_upload string "exn option"
  | Uploaded string "string option"
  | Initializing_batch
  | Uploading_files
  | Starting_batch
  | Checking_status

text \<open>
  What a call does to the outside, in the order it does it: reads of the file system
  (\<open>os.path.isdir\<close>, \<open>os.walk\<close>, \<open>os.path.getsize\<close>), a call of the transport
  (\<open>upload_manager.upload_file(namespace, bucket, object_name, file_path, part_size)\<close>),
  a line printed by the progress tracker (its filename and percentage, or its filename
  and final status), an HTTP request, the download of a result file and the writes of its
  chunks, and a log record.
\<close>

datatype event =
    Isdir string
  | Walk string
  | Getsize string
  | Upload string string string string nat
  | Progress string rat
  | Done string string
  | Request http_method endpoint json
  | Fetch string
  | Makedirs string
  | Open string
  | Write string string
  | Log level message

subsection \<open>SimpleProgress\<close>

record SimpleProgress =
  total :: int
  uploaded :: int
  filename :: string

definition SimpleProgress_init :: "int \<Rightarrow> string \<Rightarrow> SimpleProgress" where
  "SimpleProgress_init total_size name = \<lparr>total = total_size, uploaded = 0, filename = name\<rparr>"

text \<open>
  \<open>__call__\<close>: the byte count is added first; the division then raises when \<open>total\<close> is
  zero, and the line is printed otherwise. The percentage is kept as the exact quotient
  (the source computes it in floating point and prints two decimals).
\<close>

definition SimpleProgress_call :: "SimpleProgress \<Rightarrow> int \<Rightarrow> SimpleProgress \<times> (exn + event)" where
  "SimpleProgress_call self bytes_uploaded =
     (let self' = self\<lparr>uploaded := uploaded self + bytes_uploaded\<rparr>
      in if total self' = 0 then (self', Inl ZeroDivisionError)
         else (self', Inr (Progress (filename self')
                 (of_int (uploaded self') / of_int (total self') * 100))))"

definition SimpleProgress_done :: "SimpleProgress \<Rightarrow> bool \<Rightarrow> event" where
  "SimpleProgress_done self success =
     (let status = (if success then ''OK'' else ''FAILED TO UPLOAD'')
      in Done (filename self) status)"

text \<open>
  A sequence of increments: the transport calls the tracker once for each byte count it
  reports. The first call that raises ends the sequence with its exception.
\<close>

fun increments :: "SimpleProgress \<Rightarrow> int list \<Rightarrow> event list \<times> exn option" where
  "increments self [] = ([], None)"
| "increments self (n # ns) =
     (case SimpleProgress_call self n of
        (self', Inl e) \<Rightarrow> ([], Some e)
      | (self', Inr line) \<Rightarrow>
          (case increments self' ns of (lines, r) \<Rightarrow> (line # lines, r)))"

subsection \<open>The environment\<close>

text \<open>
  What the outside answers. The functions of the standard library whose result depends on
  the platform (\<open>urlparse(url).path\<close>, \<open>urljoin\<close>, \<open>os.path.basename\<close>,
  \<open>os.path.join\<close>, \<open>os.path.relpath\<close>) are fields as well, so nothing is assumed
  about them.
  \<^item> \<open>oci\<close>: the module-level name \<open>oci\<close> is the imported SDK (true) or \<open>None\<close>.
  \<^item> \<open>os_stat\<close>: the file system, \<open>None\<close> for a path that does not exist.
  \<^item> \<open>walk\<close>: the pairs \<open>(dirpath, filenames)\<close> that \<open>os.walk\<close> yields, in its order.
  \<^item> \<open>upload_file\<close>: the transport; the byte counts it reports to the progress
    callback, then the exception it raises or the \<open>etag\<close> header of its response.
  \<^item> \<open>completion\<close>: the time at which the i-th submitted future completes.
  \<^item> \<open>request\<close>: \<open>requests.get\<close> and \<open>requests.post\<close> on the job-control service.
  \<^item> \<open>fetch\<close>: \<open>requests.get(file_url, stream=True)\<close>.
  \<^item> \<open>makedirs\<close>, \<open>open_wb\<close>: the exception that creating the directory or opening
    the file for writing raises, if any.
\<close>

record stat =
  is_dir :: bool
  st_size :: nat

record response =
  status_code :: nat
  json_body :: "exn + json"
  iter_content :: "string list \<times> exn option"

record env =
  oci :: bool
  urlparse_path :: "string \<Rightarrow> string"
  urljoin :: "string \<Rightarrow> string \<Rightarrow> string"
  basename :: "string \<Rightarrow> string"
  path_join :: "string \<Rightarrow> string \<Rightarrow> string"
  relpath :: "string \<Rightarrow> string \<Rightarrow> string"
  os_stat :: "string \<Rightarrow> stat option"
  walk :: "string \<Rightarrow> (string \<times> string list) list"
  upload_file :: "string \<Rightarrow> string \<Rightarrow> string \<Rightarrow> string \<Rightarrow> nat
                   \<Rightarrow> int list \<times> (exn + string option)"
  completion :: "nat \<Rightarrow> nat"
  request :: "http_method \<Rightarrow> endpoint \<Rightarrow> json \<Rightarrow> exn + response"
  fetch :: "string \<Rightarrow> exn + response"
  makedirs :: "string \<Rightarrow> exn option"
  open_wb :: "string \<Rightarrow> exn option"

definition isdir :: "env \<Rightarrow> string \<Rightarrow> bool" where
  "isdir w p = (case os_stat w p of None \<Rightarrow> False | Some s \<Rightarrow> is_dir s)"

definition getsize :: "env \<Rightarrow> string \<Rightarrow> exn + int" where
  "getsize w p = (case os_stat w p of None \<Rightarrow> Inl (FileNotFoundError p) | Some s \<Rightarrow> Inr (int (st_size s)))"

definition MEBIBYTE :: nat where
  "MEBIBYTE = 1024 * 1024"

subsection \<open>upload\_one and upload\_files\<close>

record upload_result =
  "file" :: string
  success :: bool
  etag :: "string option"
  error :: "exn option"

text \<open>
  The \<open>except Exception\<close> branch of \<open>upload_one\<close>. The source stores \<open>str(e)\<close>; the
  model keeps the exception.
\<close>

definition upload_one_except :: "env \<Rightarrow> string \<Rightarrow> exn \<Rightarrow> upload_result \<times> event list" where
  "upload_one_except w file_path e =
     (let name = basename w file_path;
          progress = SimpleProgress_init 1 name
      in (\<lparr>file = name, success = False, etag = None, error = Some e\<rparr>,
          [SimpleProgress_done progress False]))"

text \<open>
  \<open>upload_one\<close>, with the names it closes over as arguments. An exception raised by the
  progress callback leaves \<open>upload_file\<close> as any exception of the transport does.
\<close>

definition upload_one :: "env \<Rightarrow> string \<Rightarrow> string \<Rightarrow> string \<Rightarrow> string \<Rightarrow> upload_result \<times> event list" where
  "upload_one w namespace bucket file_path object_name =
     (let handler = (\<lambda>tr e. case upload_one_except w file_path e of (r, tr') \<Rightarrow> (r, tr @ tr'))
      in case getsize w file_path of
           Inl e \<Rightarrow> handler [Getsize file_path] e
         | Inr file_size \<Rightarrow>
             (let name = basename w file_path;
                  progress = SimpleProgress_init file_size name;
                  part_size = 2 * MEBIBYTE;
                  tr = [Getsize file_path, Upload namespace bucket object_name file_path part_size]
              in case upload_file w namespace bucket object_name file_path part_size of
                   (deltas, outcome) \<Rightarrow>
                     (case increments progress deltas of
                        (lines, Some e) \<Rightarrow> handler (tr @ lines) e
                      | (lines, None) \<Rightarrow>
                          (case outcome of
                             Inl e \<Rightarrow> handler (tr @ lines) e
                           | Inr response_etag \<Rightarrow>
                               (\<lparr>file = name, success = True, etag = response_etag, error = None\<rparr>,
                                tr @ lines @ [SimpleProgress_done progress True])))))"

text \<open>
  \<open>concurrent.futures.as_completed\<close>: the futures in the order in which they complete.
  Every order is the order of some completion times.
\<close>

definition as_completed :: "(nat \<Rightarrow> nat) \<Rightarrow> 'a list \<Rightarrow> 'a list" where
  "as_completed finish futures = map snd (sort_key (\<lambda>p. finish (fst p)) (enumerate 0 futures))"

text \<open>
  What a call of \<open>upload_files\<close> gives: \<open>ret\<close> is the value returned (\<open>None\<close>, the unit
  value) or the exception raised; \<open>trace\<close> the effects of the calling thread in order;
  \<open>pool\<close> the effects of each call of \<open>upload_one\<close> submitted to the thread pool, in the
  order of submission (the interleaving of the workers is left open); \<open>collected\<close> the
  values bound to \<open>result\<close>, in the order in which the call received them.
\<close>

record session =
  ret :: "exn + unit"
  trace :: "event list"
  pool :: "event list list"
  collected :: "upload_result list"

definition raised :: "exn \<Rightarrow> session" where
  "raised e = \<lparr>ret = Inl e, trace = [], pool = [], collected = []\<rparr>"

definition path_parts :: "env \<Rightarrow> string \<Rightarrow> string list" where
  "path_parts w upload_url = split slash (strip slash (urlparse_path w upload_url))"

definition key_prefix :: "string list \<Rightarrow> string" where
  "key_prefix parts = rstrip slash (join slash (drop 5 parts)) @ [slash]"

definition all_files :: "env \<Rightarrow> string \<Rightarrow> string list" where
  "all_files w local_path =
     concat (map (\<lambda>(dp, filenames). map (\<lambda>f. path_join w dp f) filenames) (walk w local_path))"

definition upload_files :: "env \<Rightarrow> string \<Rightarrow> string \<Rightarrow> session" where
  "upload_files w upload_url local_path =
     (if \<not> oci w
      then raised (ImportError ''OCI SDK is not available. Please install `oci` to use this feature.'')
      else
        let parts = path_parts w upload_url
        in case index parts 1 of
             Inl e \<Rightarrow> raised e
           | Inr namespace \<Rightarrow>
               (case index parts 3 of
                  Inl e \<Rightarrow> raised e
                | Inr bucket \<Rightarrow>
                    (let prefix = key_prefix parts
                     in if isdir w local_path
                        then
                          let files = all_files w local_path;
                              futures = map (\<lambda>fp. upload_one w namespace bucket fp
                                  (prefix @ replace_backslash (relpath w fp local_path))) files;
                              results = as_completed (completion w) (map fst futures)
                          in \<lparr>ret = Inr (),
                              trace = [Isdir local_path, Walk local_path,
                                       Log INFO (Uploading_n_files (length files) namespace bucket prefix)]
                                      @ map (\<lambda>r. Log ERROR (Failed_to_upload (file r) (error r)))
                                          (filter (\<lambda>r. \<not> success r) results),
                              pool = map snd futures,
                              collected = results\<rparr>
                        else
                          let name = basename w local_path;
                              object_name = prefix @ name
                          in case upload_one w namespace bucket local_path object_name of
                               (result, tr) \<Rightarrow>
                                 \<lparr>ret = Inr (),
                                  trace = [Isdir local_path] @ tr @
                                    [if success result
                                     then Log INFO (Uploaded (file result) (etag result))
                                     else Log ERROR (Failed_to_upload (file result) (error result))],
                                  pool = [],
                                  collected = [result]\<rparr>)))"

text \<open>
  Observations of a session: the transport calls it made, each as the pair of the local
  file and the object key it was uploaded to; the error records it logged.
\<close>

fun upload_key :: "event \<Rightarrow> (string \<times> string) option" where
  "upload_key (Upload namespace bucket object_name file_path part_size) = Some (file_path, object_name)"
| "upload_key ev = None"

definition uploads :: "session \<Rightarrow> (string \<times> string) list" where
  "uploads s = List.map_filter upload_key (trace s @ concat (pool s))"

fun is_error_record :: "event \<Rightarrow> bool" where
  "is_error_record (Log ERROR m) = True"
| "is_error_record ev = False"

fun is_done_line :: "event \<Rightarrow> bool" where
  "is_done_line (Done name status) = True"
| "is_done_line ev = False"

subsection \<open>The job-control service\<close>

text \<open>\<open>response.raise_for_status()\<close>: an HTTPError, a RequestException, for a status 4xx or 5xx.\<close>

definition raise_for_status :: "response \<Rightarrow> exn option" where
  "raise_for_status r =
     (if 400 \<le> status_code r \<and> status_code r < 600 then Some (RequestException ''HTTPError'') else None)"

text \<open>
  The body that the six methods of the service share:
  \<^verbatim>\<open>
  try:
      response = requests.get(url, headers=self.headers, ...)
      response.raise_for_status()
      return response.json()
  except requests.exceptions.RequestException as e:
      logger.error(f"Failed to ...: {e}")
      raise
  \<close>
  Every exception leaves the method; a RequestException is logged first.
\<close>

definition api_call :: "env \<Rightarrow> http_method \<Rightarrow> endpoint \<Rightarrow> json \<Rightarrow> (exn \<Rightarrow> message) \<Rightarrow> (exn + json) \<times> event list" where
  "api_call w m ep payload failed =
     (let handler = (\<lambda>e. (Inl e, [Request m ep payload] @
                              (if is_RequestException e then [Log ERROR (failed e)] else [])))
      in case request w m ep payload of
           Inl e \<Rightarrow> handler e
         | Inr response \<Rightarrow>
             (case raise_for_status response of
                Some e \<Rightarrow> handler e
              | None \<Rightarrow>
                  (case json_body response of
                     Inl e \<Rightarrow> handler e
                   | Inr j \<Rightarrow> (Inr j, [Request m ep payload]))))"

definition get_all_batches :: "env \<Rightarrow> int \<Rightarrow> (exn + json) \<times> event list" where
  "get_all_batches w n = api_call w GET Batches (JObj [(''n'', JNum n)]) Failed_to_get_batches"

definition get_algorithms :: "env \<Rightarrow> (exn + json) \<times> event list" where
  "get_algorithms w = api_call w GET Algorithms JNull Failed_to_get_algorithms"

definition init_batch :: "env \<Rightarrow> string option \<Rightarrow> int \<Rightarrow> (exn + json) \<times> event list" where
  "init_batch w name algorithm =
     (let payload = JObj [(''batch_name'', case name of None \<Rightarrow> JNull | Some s \<Rightarrow> JStr s),
                          (''algorithm'', JNum algorithm)]
      in api_call w POST Batches payload Failed_to_initialize_batch)"

definition start_batch :: "env \<Rightarrow> json \<Rightarrow> (exn + json) \<times> event list" where
  "start_batch w batch_id = api_call w POST (Batch batch_id) (JObj []) (Failed_to_start_batch batch_id)"

definition get_batch_status :: "env \<Rightarrow> json \<Rightarrow> (exn + json) \<times> event list" where
  "get_batch_status w batch_id = api_call w GET (Batch batch_id) JNull (Failed_to_get_status batch_id)"

definition get_results :: "env \<Rightarrow> json \<Rightarrow> (exn + json) \<times> event list" where
  "get_results w batch_id = api_call w GET (BatchResults batch_id) JNull (Failed_to_get_results batch_id)"

subsection \<open>download\_results\<close>

text \<open>
  The body of the loop over \<open>files\<close>. Only a RequestException is caught; any other
  exception (a missing \<open>name\<close>, a file that cannot be opened) leaves the loop and the
  method. A PAR URL or a name that is not a string is outside the interface of the service;
  the model lets \<open>urljoin\<close> or \<open>os.path.join\<close> raise TypeError for it.
\<close>

definition download_file :: "env \<Rightarrow> json \<Rightarrow> string \<Rightarrow> json \<Rightarrow> (exn + unit) \<times> event list" where
  "download_file w par_url output_dir file_info =
     (case subscript file_info ''name'' of
        Inl e \<Rightarrow> (Inl e, [])
      | Inr name \<Rightarrow>
          (case (par_url, name) of
             (JStr base, JStr fname) \<Rightarrow>
               (let file_url = urljoin w base fname;
                    local_path = path_join w output_dir fname;
                    tr = [Log INFO (Downloading fname), Fetch file_url];
                    handler = (\<lambda>tr e. if is_RequestException e
                                 then (Inr (), tr @ [Log ERROR (Failed_to_download fname e)])
                                 else (Inl e, tr))
                in case fetch w file_url of
                     Inl e \<Rightarrow> handler tr e
                   | Inr response \<Rightarrow>
                       (case raise_for_status response of
                          Some e \<Rightarrow> handler tr e
                        | None \<Rightarrow>
                            (case open_wb w local_path of
                               Some e \<Rightarrow> handler (tr @ [Open local_path]) e
                             | None \<Rightarrow>
                                 (case iter_content response of
                                    (chunks, err) \<Rightarrow>
                                      (let tr' = tr @ [Open local_path] @ map (Write local_path) chunks
                                       in case err of
                                            Some e \<Rightarrow> handler tr' e
                                          | None \<Rightarrow> (Inr (), tr' @ [Log INFO (Saved_to local_path)]))))))
           | _ \<Rightarrow> (Inl TypeError, [])))"

fun download_loop :: "env \<Rightarrow> json \<Rightarrow> string \<Rightarrow> json list \<Rightarrow> (exn + unit) \<times> event list" where
  "download_loop w par_url output_dir [] = (Inr (), [])"
| "download_loop w par_url output_dir (file_info # files) =
     (case download_file w par_url output_dir file_info of
        (Inl e, tr) \<Rightarrow> (Inl e, tr)
      | (Inr u, tr) \<Rightarrow>
          (case download_loop w par_url output_dir files of (r, tr') \<Rightarrow> (r, tr @ tr')))"

definition download_results :: "env \<Rightarrow> json \<Rightarrow> string \<Rightarrow> (exn + unit) \<times> event list" where
  "download_results w batch_id output_dir =
     (case get_results w batch_id of
        (Inl e, tr) \<Rightarrow> (Inl e, tr)
      | (Inr results, tr) \<Rightarrow>
          (case dict_get results ''result_files'' (JList []) of
             Inl e \<Rightarrow> (Inl e, tr)
           | Inr files \<Rightarrow>
               (case dict_get results ''par_url'' JNull of
                  Inl e \<Rightarrow> (Inl e, tr)
                | Inr par_url \<Rightarrow>
                    if \<not> truthy par_url
                    then (Inl (ValueError ''No PAR URL found for this batch.''), tr)
                    else
                      (case makedirs w output_dir of
                         Some e \<Rightarrow> (Inl e, tr @ [Makedirs output_dir])
                       | None \<Rightarrow>
                           (case iter files of
                              Inl e \<Rightarrow> (Inl e, tr @ [Makedirs output_dir])
                            | Inr items \<Rightarrow>
                                (case download_loop w par_url output_dir items of
                                   (r, tr') \<Rightarrow> (r, tr @ [Makedirs output_dir] @ tr')))))))"

text \<open>
  The exception with which the request for a result file fails, if it does:
  the one \<open>requests.get\<close> raises, or the HTTPError of \<open>raise_for_status\<close>.
\<close>

definition fetch_failure :: "env \<Rightarrow> string \<Rightarrow> exn option" where
  "fetch_failure w file_url =
     (case fetch w file_url of Inl e \<Rightarrow> Some e | Inr response \<Rightarrow> raise_for_status response)"

subsection \<open>run\_batch\<close>

text \<open>
  \<open>upload_files\<close> for the value \<open>batch_info["object_storage_url"]\<close>, which the source
  passes on as it is. For a value that is not a string, \<open>urlparse\<close> raises AttributeError
  (a true value has no \<open>decode\<close>) or returns a path of bytes, whose \<open>strip('/')\<close> raises
  TypeError (a false value); both after the check for the SDK.
\<close>

definition upload_files_of :: "env \<Rightarrow> json \<Rightarrow> string \<Rightarrow> session" where
  "upload_files_of w upload_url local_path =
     (case upload_url of
        JStr url \<Rightarrow> upload_files w url local_path
      | _ \<Rightarrow>
          if \<not> oci w
          then raised (ImportError ''OCI SDK is not available. Please install `oci` to use this feature.'')
          else raised (if truthy upload_url then AttributeError else TypeError))"

record run =
  result :: "exn + json"
  effects :: "event list"
  workers :: "event list list"

definition run_batch :: "env \<Rightarrow> int \<Rightarrow> string \<Rightarrow> string option \<Rightarrow> run" where
  "run_batch w algorithm input_path name =
     (case init_batch w name algorithm of
        (Inl e, tr) \<Rightarrow> \<lparr>result = Inl e, effects = Log INFO Initializing_batch # tr, workers = []\<rparr>
      | (Inr batch_info, tr) \<Rightarrow>
          (let t1 = Log INFO Initializing_batch # tr
           in case subscript batch_info ''object_storage_url'' of
                Inl e \<Rightarrow> \<lparr>result = Inl e, effects = t1, workers = []\<rparr>
              | Inr upload_url \<Rightarrow>
                  (case subscript batch_info ''batch_id'' of
                     Inl e \<Rightarrow> \<lparr>result = Inl e, effects = t1, workers = []\<rparr>
                   | Inr batch_id \<Rightarrow>
                       (let s = upload_files_of w upload_url input_path;
                            t2 = t1 @ [Log INFO Uploading_files] @ trace s
                        in case ret s of
                             Inl e \<Rightarrow> \<lparr>result = Inl e, effects = t2, workers = pool s\<rparr>
                           | Inr u \<Rightarrow>
                               (case start_batch w batch_id of
                                  (Inl e, tr3) \<Rightarrow>
                                    \<lparr>result = Inl e, effects = t2 @ [Log INFO Starting_batch] @ tr3,
                                     workers = pool s\<rparr>
                                | (Inr start_response, tr3) \<Rightarrow>
                                    (let t3 = t2 @ [Log INFO Starting_batch] @ tr3
                                     in case get_batch_status w batch_id of
                                          (Inl e, tr4) \<Rightarrow>
                                            \<lparr>result = Inl e,
                                             effects = t3 @ [Log INFO Checking_status] @ tr4,
                                             workers = pool s\<rparr>
                                        | (Inr status, tr4) \<Rightarrow>
                                            \<lparr>result = Inr (JObj [(''batch_id'', batch_id),
                                                                  (''start_response'', start_response),
                                                                  (''status'', status)]),
                                             effects = t3 @ [Log INFO Checking_status] @ tr4,
                                             workers = pool s\<rparr>))))))"

text \<open>
  The external steps of \<open>run_batch\<close>, read off its effects: the request that creates the
  batch, every effect of the upload (the record that announces it, the reads of the file
  system, the transport calls, the progress lines and the records of \<open>upload_files\<close>), the
  request that starts the batch, the request for its status.
\<close>

datatype step = Create | Uploading | Start | Status

fun step_of_message :: "message \<Rightarrow> step option" where
  "step_of_message Uploading_files = Some Uploading"
| "step_of_message (Uploading_n_files n namespace bucket key) = Some Uploading"
| "step_of_message (Failed_to_upload name e) = Some Uploading"
| "step_of_message (Uploaded name e) = Some Uploading"
| "step_of_message m = None"

fun step_of_request :: "http_method \<Rightarrow> endpoint \<Rightarrow> step option" where
  "step_of_request POST Batches = Some Create"
| "step_of_request POST (Batch batch_id) = Some Start"
| "step_of_request GET (Batch batch_id) = Some Status"
| "step_of_request m ep = None"

fun step_of :: "event \<Rightarrow> step option" where
  "step_of (Request m ep payload) = step_of_request m ep"
| "step_of (Log l m) = step_of_message m"
| "step_of (Isdir p) = Some Uploading"
| "step_of (Walk p) = Some Uploading"
| "step_of (Getsize p) = Some Uploading"
| "step_of (Upload namespace bucket object_name file_path part_size) = Some Uploading"
| "step_of (Progress name percent) = Some Uploading"
| "step_of (Done name status) = Some Uploading"
| "step_of ev = None"

definition steps :: "run \<Rightarrow> step list" where
  "steps r = List.map_filter step_of (effects r)"

subsection \<open>A concrete environment\<close>

text \<open>\<open>posixpath.basename\<close> and \<open>posixpath.join\<close> of two arguments.\<close>

definition posix_basename :: "string \<Rightarrow> string" where
  "posix_basename p = rev (takeWhile (\<lambda>c. c \<noteq> slash) (rev p))"

definition posix_join :: "string \<Rightarrow> string \<Rightarrow> string" where
  "posix_join a b =
     (if b \<noteq> [] \<and> hd b = slash then b
      else if a = [] \<or> last a = slash then a @ b
      else a @ [slash] @ b)"

text \<open>
  A POSIX machine with the SDK installed. Its URLs are \<open>https://host\<close> followed by a
  path, so the path is what follows the first twelve characters; its result URLs are a
  base ending in \<open>/\<close> joined with a relative name; \<open>relpath\<close> is only asked for files
  below the start directory. The directory \<open>data\<close> holds \<open>a.txt\<close> and \<open>sub/b.txt\<close>, and
  \<open>input.tif\<close> is a file. The transport uploads every file but \<open>data/sub/b.txt\<close>, whose
  connection breaks after 8 bytes. Futures complete in the order of submission.
\<close>

definition demo_fs :: "(string \<times> stat) list" where
  "demo_fs =
     [(''data'', \<lparr>is_dir = True, st_size = 4096\<rparr>),
      (''data/a.txt'', \<lparr>is_dir = False, st_size = 10\<rparr>),
      (''data/sub/b.txt'', \<lparr>is_dir = False, st_size = 20\<rparr>),
      (''input.tif'', \<lparr>is_dir = False, st_size = 4\<rparr>)]"

definition demo_upload_file :: "string \<Rightarrow> string \<Rightarrow> string \<Rightarrow> string \<Rightarrow> nat \<Rightarrow> int list \<times> (exn + string option)" where
  "demo_upload_file namespace bucket object_name file_path part_size =
     (if file_path = ''data/sub/b.txt'' then ([8], Inl (OtherException ''connection reset''))
      else if file_path = ''data/a.txt'' then ([10], Inr (Some ''e1''))
      else ([4], Inr (Some ''e2'')))"

definition demo_request :: "http_method \<Rightarrow> endpoint \<Rightarrow> json \<Rightarrow> exn + response" where
  "demo_request m ep payload =
     (let ok = (\<lambda>j. Inr \<lparr>status_code = 200, json_body = Inr j, iter_content = ([], None)\<rparr>)
      in if m = POST \<and> ep = Batches
         then ok (JObj [(''batch_id'', JNum 7),
                        (''object_storage_url'', JStr ''https://host/n/ns/b/bucket/o/prefix/'')])
         else if m = POST \<and> ep = Batch (JNum 7) then ok (JObj [(''started'', JBool True)])
         else if m = GET \<and> ep = Batch (JNum 7) then ok (JObj [(''status'', JStr ''running'')])
         else if m = GET \<and> ep = BatchResults (JNum 7)
         then ok (JObj [(''result_files'', JList [JObj [(''name'', JStr ''out.tif'')],
                                                   JObj [(''name'', JStr ''log.txt'')]]),
                        (''par_url'', JStr ''https://par/'')])
         else Inl (RequestException ''connection refused''))"

definition demo_fetch :: "string \<Rightarrow> exn + response" where
  "demo_fetch file_url =
     (if file_url = ''https://par/log.txt''
      then Inr \<lparr>status_code = 200, json_body = Inl (RequestException ''not JSON''),
                iter_content = ([''line 1'', ''line 2''], None)\<rparr>
      else Inl (RequestException ''connection refused''))"

definition demo :: env where
  "demo =
     \<lparr>oci = True,
      urlparse_path = drop 12,
      urljoin = (\<lambda>base url. base @ url),
      basename = posix_basename,
      path_join = posix_join,
      relpath = (\<lambda>path start. drop (length start + 1) path),
      os_stat = map_of demo_fs,
      walk = (\<lambda>top. if top = ''data''
                     then [(''data'', [''a.txt'']), (''data/sub'', [''b.txt''])] else []),
      upload_file = demo_upload_file,
      completion = (\<lambda>i. i),
      request = demo_request,
      fetch = demo_fetch,
      makedirs = (\<lambda>d. None),
      open_wb = (\<lambda>p. None)\<rparr>"

text \<open>
  The same machine where \<open>data\<close> holds \<open>x/r.tif\<close> and \<open>y/r.tif\<close>, both uploaded, the
  second completing first.
\<close>

definition demo_twins :: env where
  "demo_twins =
     demo\<lparr>os_stat := map_of [(''data'', \<lparr>is_dir = True, st_size = 4096\<rparr>),
                             (''data/x/r.tif'', \<lparr>is_dir = False, st_size = 4\<rparr>),
                             (''data/y/r.tif'', \<lparr>is_dir = False, st_size = 4\<rparr>)],
          walk := (\<lambda>top. if top = ''data''
                     then [(''data'', []), (''data/x'', [''r.tif'']), (''data/y'', [''r.tif''])] else []),
          completion := (\<lambda>i. 1 - i)\<rparr>"

text \<open>
  The same machine without a network; with a service that hands out a target of one
  segment; with a service whose result metadata has no PAR URL; without the SDK.
\<close>

definition demo_offline :: env where
  "demo_offline = demo\<lparr>request := (\<lambda>m ep payload. Inl (RequestException ''connection refused''))\<rparr>"

definition demo_bad_target :: env where
  "demo_bad_target =
     demo\<lparr>request := (\<lambda>m ep payload.
       Inr \<lparr>status_code = 200,
            json_body = Inr (JObj [(''batch_id'', JNum 7), (''object_storage_url'', JStr ''https://host/n'')]),
            iter_content = ([], None)\<rparr>)\<rparr>"

definition demo_no_par :: env where
  "demo_no_par =
     demo\<lparr>request := (\<lambda>m ep payload.
       Inr \<lparr>status_code = 200,
            json_body = Inr (JObj [(''result_files'', JList [JObj [(''name'', JStr ''out.tif'')]])]),
            iter_content = ([], None)\<rparr>)\<rparr>"

definition demo_no_oci :: env where
  "demo_no_oci = demo\<lparr>oci := False\<rparr>"

text \<open>
  The same POSIX machine where \<open>data\<close> holds a file whose name contains a backslash,
  \<open>a\b.txt\<close>, beside the file \<open>b.txt\<close> of its subdirectory \<open>a\<close>.
\<close>

definition a_backslash_b :: string where
  "a_backslash_b = ''a'' @ [backslash] @ ''b.txt''"

definition demo_backslash :: env where
  "demo_backslash =
     demo\<lparr>os_stat := map_of [(''data'', \<lparr>is_dir = True, st_size = 4096\<rparr>),
                             (''data/'' @ a_backslash_b, \<lparr>is_dir = False, st_size = 4\<rparr>),
                             (''data/a/b.txt'', \<lparr>is_dir = False, st_size = 4\<rparr>)],
          walk := (\<lambda>top. if top = ''data''
                     then [(''data'', [a_backslash_b]), (''data/a'', [''b.txt''])] else [])\<rparr>"

text \<open>
  A Windows machine: paths are joined and split at the backslash. Its directory \<open>data\<close>
  holds \<open>a.txt\<close> and \<open>sub\b.txt\<close>.
\<close>

definition nt_join :: "string \<Rightarrow> string \<Rightarrow> string" where
  "nt_join a b = a @ [backslash] @ b"

definition nt_basename :: "string \<Rightarrow> string" where
  "nt_basename p = rev (takeWhile (\<lambda>c. c \<noteq> backslash \<and> c \<noteq> slash) (rev p))"

definition demo_windows :: env where
  "demo_windows =
     demo\<lparr>basename := nt_basename,
          path_join := nt_join,
          os_stat := map_of [(''data'', \<lparr>is_dir = True, st_size = 4096\<rparr>),
                             (nt_join ''data'' ''a.txt'', \<lparr>is_dir = False, st_size = 4\<rparr>),
                             (nt_join (nt_join ''data'' ''sub'') ''b.txt'', \<lparr>is_dir = False, st_size = 4\<rparr>)],
          walk := (\<lambda>top. if top = ''data''
                     then [(''data'', [''a.txt'']), (nt_join ''data'' ''sub'', [''b.txt''])] else [])\<rparr>"



section \<open>Properties\<close>

subsection \<open>upload\_one and upload\_files, step by step\<close>

lemma increments_lines:
  "ev \<in> set (fst (increments p ds)) \<Longrightarrow> \<exists>n q. ev = Progress n q"
proof (induction ds arbitrary: p)
  case Nil
  then show ?case by simp
next
  case (Cons d ds)
  show ?case
  proof (cases "SimpleProgress_call p d")
    case (Pair p' r)
    show ?thesis
    proof (cases r)
      case (Inl e)
      with Pair Cons.prems show ?thesis by simp
    next
      case (Inr line)
      have line: "\<exists>n q. line = Progress n q"
        using Pair Inr by (auto simp: SimpleProgress_call_def Let_def split: if_splits)
      from Cons.prems Pair Inr have "ev = line \<or> ev \<in> set (fst (increments p' ds))"
        by (auto split: prod.splits)
      with line Cons.IH show ?thesis by blast
    qed
  qed
qed

lemma increments_no_upload: "List.map_filter upload_key (fst (increments p ds)) = []"
proof -
  have "\<forall>ev \<in> set (fst (increments p ds)). upload_key ev = None"
    using increments_lines by fastforce
  then show ?thesis
    by (simp add: map_filter_def filter_empty_conv)
qed

lemma increments_no_done: "filter is_done_line (fst (increments p ds)) = []"
proof -
  have "\<forall>ev \<in> set (fst (increments p ds)). \<not> is_done_line ev"
    using increments_lines by fastforce
  then show ?thesis
    by (simp add: filter_empty_conv)
qed

lemma upload_one_file: "file (fst (upload_one w ns b fp on)) = basename w fp"
  by (simp add: upload_one_def upload_one_except_def Let_def split: sum.splits prod.splits option.splits)

lemma upload_one_last:
  "snd (upload_one w ns b fp on) \<noteq> [] \<and>
   last (snd (upload_one w ns b fp on)) =
     Done (basename w fp) (if success (fst (upload_one w ns b fp on)) then ''OK'' else ''FAILED TO UPLOAD'')"
  by (simp add: upload_one_def upload_one_except_def SimpleProgress_done_def SimpleProgress_init_def Let_def
      split: sum.splits prod.splits option.splits)

lemma upload_one_uploads:
  "List.map_filter upload_key (snd (upload_one w ns b fp on)) =
     (if os_stat w fp = None then [] else [(fp, on)])"
proof -
  have *: "List.map_filter upload_key (xs @ ys) = List.map_filter upload_key xs @ List.map_filter upload_key ys" for xs ys
    by (simp add: map_filter_def)
  have **: "increments p ds = (lines, r) \<Longrightarrow> List.map_filter upload_key lines = []" for p ds lines r
    using increments_no_upload[of p ds] by simp
  show ?thesis
    by (auto simp: upload_one_def upload_one_except_def SimpleProgress_done_def getsize_def Let_def * **
        map_filter_simps
      split: sum.splits prod.splits option.splits)
qed

lemma mset_as_completed: "mset (as_completed f xs) = mset xs"
proof -
  have "mset (as_completed f xs) = image_mset snd (mset (sort_key (\<lambda>p. f (fst p)) (enumerate 0 xs)))"
    by (simp only: as_completed_def mset_map)
  also have "\<dots> = image_mset snd (mset (enumerate 0 xs))"
    by (simp only: mset_sort)
  also have "\<dots> = mset (map snd (enumerate 0 xs))"
    by (simp only: mset_map)
  also have "\<dots> = mset xs"
    by (simp only: map_snd_enumerate)
  finally show ?thesis .
qed


lemma increments_raises:
  "snd (increments p ds) = (if total p = 0 \<and> ds \<noteq> [] then Some ZeroDivisionError else None)"
proof (induction ds arbitrary: p)
  case Nil
  then show ?case by simp
next
  case (Cons d ds)
  show ?case
  proof (cases "total p = 0")
    case True
    then show ?thesis by (simp add: SimpleProgress_call_def Let_def)
  next
    case False
    then have "snd (increments p (d # ds)) = snd (increments (p\<lparr>uploaded := uploaded p + d\<rparr>) ds)"
      by (simp add: SimpleProgress_call_def Let_def split: prod.splits)
    with False Cons.IH show ?thesis by simp
  qed
qed

lemma upload_one_no_error_record: "filter is_error_record (snd (upload_one w ns b fp on)) = []"
proof -
  have "\<forall>ev \<in> set (fst (increments p ds)). \<not> is_error_record ev" for p ds
    using increments_lines by fastforce
  then have nil: "filter is_error_record (fst (increments p ds)) = []" for p ds
    by (simp add: filter_empty_conv)
  have *: "increments p ds = (lines, r) \<Longrightarrow> filter is_error_record lines = []" for p ds lines r
    using nil[of p ds] by simp
  show ?thesis
    by (auto simp: upload_one_def upload_one_except_def SimpleProgress_done_def Let_def *
      split: sum.splits prod.splits option.splits)
qed

lemma upload_one_done_lines:
  "filter is_done_line (snd (upload_one w ns b fp on)) = [last (snd (upload_one w ns b fp on))]"
proof -
  have *: "increments p ds = (lines, r) \<Longrightarrow> filter is_done_line lines = []" for p ds lines r
    using increments_no_done[of p ds] by simp
  show ?thesis
    by (auto simp: upload_one_def upload_one_except_def SimpleProgress_done_def Let_def *
      split: sum.splits prod.splits option.splits)
qed

lemma upload_one_success_error:
  "success (fst (upload_one w ns b fp on)) \<longleftrightarrow> error (fst (upload_one w ns b fp on)) = None"
  by (simp add: upload_one_def upload_one_except_def Let_def split: sum.splits prod.splits option.splits)

lemma upload_one_transport_raises:
  assumes "os_stat w fp = Some st" and "upload_file w ns b on fp (2 * MEBIBYTE) = (deltas, Inl e)"
  shows "fst (upload_one w ns b fp on) =
    \<lparr>file = basename w fp, success = False, etag = None,
     error = Some (if st_size st = 0 \<and> deltas \<noteq> [] then ZeroDivisionError else e)\<rparr>"
proof -
  let ?p = "SimpleProgress_init (int (st_size st)) (basename w fp)"
  have "snd (increments ?p deltas) = (if st_size st = 0 \<and> deltas \<noteq> [] then Some ZeroDivisionError else None)"
    by (simp add: increments_raises SimpleProgress_init_def)
  then show ?thesis
    using assms
    by (cases "increments ?p deltas")
       (auto simp: upload_one_def upload_one_except_def getsize_def Let_def split: if_splits)
qed

lemma upload_files_dir:
  assumes "oci w" and "4 \<le> length (path_parts w url)" and "isdir w p"
  shows "upload_files w url p =
    (let parts = path_parts w url; prefix = key_prefix parts;
         futures = map (\<lambda>fp. upload_one w (parts ! 1) (parts ! 3) fp
                     (prefix @ replace_backslash (relpath w fp p))) (all_files w p);
         results = as_completed (completion w) (map fst futures)
     in \<lparr>ret = Inr (),
         trace = [Isdir p, Walk p,
                  Log INFO (Uploading_n_files (length (all_files w p)) (parts ! 1) (parts ! 3) prefix)]
                 @ map (\<lambda>r. Log ERROR (Failed_to_upload (file r) (error r)))
                     (filter (\<lambda>r. \<not> success r) results),
         pool = map snd futures,
         collected = results\<rparr>)"
  using assms by (simp add: upload_files_def index_def Let_def)

lemma upload_files_single:
  assumes "oci w" and "4 \<le> length (path_parts w url)" and "\<not> isdir w p"
  shows "upload_files w url p =
    (let parts = path_parts w url;
         run = upload_one w (parts ! 1) (parts ! 3) p (key_prefix parts @ basename w p)
     in \<lparr>ret = Inr (),
         trace = [Isdir p] @ snd run @
           [if success (fst run) then Log INFO (Uploaded (file (fst run)) (etag (fst run)))
            else Log ERROR (Failed_to_upload (file (fst run)) (error (fst run)))],
         pool = [],
         collected = [fst run]\<rparr>)"
  using assms by (simp add: upload_files_def index_def Let_def split: prod.splits)

lemma upload_files_raises:
  "ret (upload_files w url p) = Inl e \<Longrightarrow> upload_files w url p = raised e"
  by (auto simp: upload_files_def raised_def Let_def split: if_splits sum.splits prod.splits)

subsection \<open>upload\_files\<close>

lemmas demo_simps = demo_def demo_twins_def demo_fs_def demo_upload_file_def demo_request_def demo_fetch_def
  posix_basename_def posix_join_def path_parts_def key_prefix_def strip_def rstrip_def slash_def
  backslash_def replace_backslash_def index_def isdir_def getsize_def all_files_def raised_def
  upload_files_def upload_one_def upload_one_except_def SimpleProgress_init_def SimpleProgress_call_def
  SimpleProgress_done_def as_completed_def uploads_def MEBIBYTE_def map_filter_def Let_def

text \<open>
  C2 (as amended). The claim is that a target URL whose path has fewer than 5 segments
  makes \<open>upload_files\<close> raise before any worker runs. The code reads the segments at
  index 1 and 3 and slices from index 5, so it raises for fewer than 4 segments: then the
  call raises (\<open>IndexError\<close>, or \<open>ImportError\<close> without the SDK) with no effect at all,
  no file-system read, no transport call, no progress line and no result.
\<close>

theorem upload_files_short_url:
  assumes "length (path_parts w upload_url) < 4"
  shows "upload_files w upload_url local_path =
    \<lparr>ret = Inl (if oci w then IndexError
                   else ImportError ''OCI SDK is not available. Please install `oci` to use this feature.''),
     trace = [], pool = [], collected = []\<rparr>"
proof (cases "length (path_parts w upload_url) < 2")
  case True
  then show ?thesis
    by (simp add: upload_files_def index_def raised_def Let_def)
next
  case False
  with assms show ?thesis
    by (simp add: upload_files_def index_def raised_def Let_def)
qed

text \<open>The URL \<open>https://host/n/ns/b\<close> has three segments.\<close>

theorem upload_files_short_url_witness:
  "length (path_parts demo ''https://host/n/ns/b'') < 4 \<and>
   upload_files demo ''https://host/n/ns/b'' ''input.tif'' =
     \<lparr>ret = Inl IndexError, trace = [], pool = [], collected = []\<rparr>"
proof -
  have short: "length (path_parts demo ''https://host/n/ns/b'') < 4"
    by (simp add: demo_simps)
  have "oci demo"
    by (simp add: demo_def)
  with short upload_files_short_url[OF short, of "''input.tif''"] show ?thesis
    by simp
qed

text \<open>
  Against C2 as stated: \<open>https://host/n/ns/b/bucket\<close> has four segments, fewer than five,
  and the call returns after uploading the file under the key \<open>/input.tif\<close>, with its
  progress line.
\<close>

theorem upload_files_four_segments:
  "length (path_parts demo ''https://host/n/ns/b/bucket'') < 5 \<and>
   ret (upload_files demo ''https://host/n/ns/b/bucket'' ''input.tif'') = Inr () \<and>
   uploads (upload_files demo ''https://host/n/ns/b/bucket'' ''input.tif'') = [(''input.tif'', ''/input.tif'')] \<and>
   filter is_done_line (trace (upload_files demo ''https://host/n/ns/b/bucket'' ''input.tif''))
     = [Done ''input.tif'' ''OK'']"
  by (simp add: demo_simps)

text \<open>
  C3 (as amended). The claim is that a local path that does not exist makes
  \<open>upload_files\<close> raise. The code has no check of its own: \<open>os.path.isdir\<close> is false for
  such a path, the path is handed to \<open>upload_one\<close> as a single file, \<open>os.path.getsize\<close>
  raises inside the \<open>try\<close>, and the handler turns the exception into a failed result.
  With the SDK present and a target of at least four segments, the call returns normally
  with exactly one failed result, the FAILED line and one error record; the transport is
  never called.
\<close>

theorem upload_files_missing_path:
  assumes "oci w" and "4 \<le> length (path_parts w upload_url)" and "os_stat w local_path = None"
  shows "upload_files w upload_url local_path =
    \<lparr>ret = Inr (),
     trace = [Isdir local_path, Getsize local_path, Done (basename w local_path) ''FAILED TO UPLOAD'',
              Log ERROR (Failed_to_upload (basename w local_path) (Some (FileNotFoundError local_path)))],
     pool = [],
     collected = [\<lparr>file = basename w local_path, success = False, etag = None,
                   error = Some (FileNotFoundError local_path)\<rparr>]\<rparr>"
proof -
  from assms(3) have "\<not> isdir w local_path"
    by (simp add: isdir_def)
  from upload_files_single[OF assms(1,2) this] assms(3) show ?thesis
    by (simp add: upload_one_def upload_one_except_def getsize_def SimpleProgress_done_def
        SimpleProgress_init_def Let_def)
qed

text \<open>\<open>missing.tif\<close> is not on the machine.\<close>

theorem upload_files_missing_path_witness:
  "oci demo \<and> 4 \<le> length (path_parts demo ''https://host/n/ns/b/bucket/o/prefix/'') \<and>
   os_stat demo ''missing.tif'' = None \<and>
   ret (upload_files demo ''https://host/n/ns/b/bucket/o/prefix/'' ''missing.tif'') = Inr () \<and>
   map success (collected (upload_files demo ''https://host/n/ns/b/bucket/o/prefix/'' ''missing.tif'')) = [False]"
proof -
  have 1: "oci demo"
    by (simp add: demo_def)
  have 2: "4 \<le> length (path_parts demo ''https://host/n/ns/b/bucket/o/prefix/'')"
    by (simp add: demo_simps)
  have 3: "os_stat demo ''missing.tif'' = None"
    by (simp add: demo_def demo_fs_def)
  from upload_files_missing_path[OF 1 2 3] 1 2 3 show ?thesis
    by simp
qed

text \<open>Against C3 as stated: the call for the missing path returns, it does not raise.\<close>

theorem upload_files_missing_path_returns:
  "os_stat demo ''missing.tif'' = None \<and>
   upload_files demo ''https://host/n/ns/b/bucket/o/prefix/'' ''missing.tif'' =
    \<lparr>ret = Inr (),
     trace = [Isdir ''missing.tif'', Getsize ''missing.tif'', Done ''missing.tif'' ''FAILED TO UPLOAD'',
              Log ERROR (Failed_to_upload ''missing.tif'' (Some (FileNotFoundError ''missing.tif'')))],
     pool = [],
     collected = [\<lparr>file = ''missing.tif'', success = False, etag = None,
                   error = Some (FileNotFoundError ''missing.tif'')\<rparr>]\<rparr>"
  by (simp add: demo_simps)


lemma map_filter_append: "List.map_filter f (xs @ ys) = List.map_filter f xs @ List.map_filter f ys"
  by (simp add: map_filter_def)

lemma map_filter_concat_map:
  "List.map_filter f (concat (map g xs)) = concat (map (\<lambda>x. List.map_filter f (g x)) xs)"
  by (induction xs) (simp_all add: map_filter_append map_filter_simps)

lemma concat_map_if_single:
  "concat (map (\<lambda>x. if P x then [] else [h x]) xs) = map h (filter (\<lambda>x. \<not> P x) xs)"
  by (induction xs) simp_all

lemma map_filter_upload_key_log:
  "List.map_filter upload_key (map (\<lambda>r. Log l (g r)) xs) = []"
  by (induction xs) (simp_all add: map_filter_simps)

lemma last_key_prefix: "last (key_prefix parts) = slash"
  by (simp add: key_prefix_def)

lemma uploads_of_session:
  assumes "oci w" and "4 \<le> length (path_parts w upload_url)"
  shows "uploads (upload_files w upload_url local_path) =
      (if isdir w local_path
       then map (\<lambda>fp. (fp, key_prefix (path_parts w upload_url) @ replace_backslash (relpath w fp local_path)))
              (filter (\<lambda>fp. os_stat w fp \<noteq> None) (all_files w local_path))
       else if os_stat w local_path = None then []
       else [(local_path, key_prefix (path_parts w upload_url) @ basename w local_path)])"
proof (cases "isdir w local_path")
  case True
  have "uploads (upload_files w upload_url local_path) =
      concat (map (\<lambda>fp. List.map_filter upload_key (snd (upload_one w (path_parts w upload_url ! 1)
          (path_parts w upload_url ! 3) fp
          (key_prefix (path_parts w upload_url) @ replace_backslash (relpath w fp local_path)))))
        (all_files w local_path))"
    by (simp add: upload_files_dir[OF assms True] uploads_def Let_def map_filter_append
        map_filter_simps map_filter_concat_map map_filter_upload_key_log comp_def)
  also have "\<dots> = map (\<lambda>fp. (fp, key_prefix (path_parts w upload_url) @ replace_backslash (relpath w fp local_path)))
              (filter (\<lambda>fp. os_stat w fp \<noteq> None) (all_files w local_path))"
    by (simp only: upload_one_uploads concat_map_if_single)
  finally show ?thesis
    using True by simp
next
  case False
  then show ?thesis
    by (simp add: upload_files_single[OF assms False] uploads_def Let_def map_filter_append
        map_filter_simps upload_one_uploads)
qed

text \<open>
  C5 (as amended). The key prefix ends with \<open>/\<close>, and the transport is called with these
  object keys: for a single file, the prefix followed by the basename of the path; for a
  directory, for every file that \<open>os.walk\<close> lists (and that is still there when its size
  is read), the prefix followed by the path of the file relative to the directory, in which
  every backslash is replaced by a slash. The claim calls that the normalisation of the
  path separators; the code replaces every backslash, also one that is part of a file name.
  The session is one with the SDK present and a target of at least four segments (any
  other raises before a key is computed).
\<close>

theorem object_keys:
  assumes "oci w" and "4 \<le> length (path_parts w upload_url)"
  shows "last (key_prefix (path_parts w upload_url)) = CHR ''/'' \<and>
    uploads (upload_files w upload_url local_path) =
      (if isdir w local_path
       then map (\<lambda>fp. (fp, key_prefix (path_parts w upload_url) @
                            map (\<lambda>c. if c = CHR 0x5C then CHR ''/'' else c) (relpath w fp local_path)))
              (filter (\<lambda>fp. os_stat w fp \<noteq> None) (all_files w local_path))
       else if os_stat w local_path = None then []
       else [(local_path, key_prefix (path_parts w upload_url) @ basename w local_path)])"
proof -
  have "replace_backslash = map (\<lambda>c. if c = CHR 0x5C then CHR ''/'' else c)"
    by (rule ext) (simp add: replace_backslash_def backslash_def slash_def)
  with uploads_of_session[OF assms, of local_path] last_key_prefix[of "path_parts w upload_url"]
  show ?thesis
    by (simp add: slash_def)
qed

text \<open>
  The scenario of the specification: target \<open>https://host/n/ns/b/bucket/o/prefix/\<close>, files
  \<open>a.txt\<close> and \<open>sub/b.txt\<close>, on the POSIX machine and on the Windows machine, where the
  relative path of the second file is \<open>sub\b.txt\<close>.
\<close>

theorem object_keys_witness:
  "oci demo \<and> 4 \<le> length (path_parts demo ''https://host/n/ns/b/bucket/o/prefix/'') \<and>
   key_prefix (path_parts demo ''https://host/n/ns/b/bucket/o/prefix/'') = ''prefix/'' \<and>
   uploads (upload_files demo ''https://host/n/ns/b/bucket/o/prefix/'' ''data'') =
     [(''data/a.txt'', ''prefix/a.txt''), (''data/sub/b.txt'', ''prefix/sub/b.txt'')] \<and>
   uploads (upload_files demo ''https://host/n/ns/b/bucket/o/prefix/'' ''input.tif'') =
     [(''input.tif'', ''prefix/input.tif'')] \<and>
   relpath demo_windows (nt_join (nt_join ''data'' ''sub'') ''b.txt'') ''data'' = nt_join ''sub'' ''b.txt'' \<and>
   uploads (upload_files demo_windows ''https://host/n/ns/b/bucket/o/prefix/'' ''data'') =
     [(nt_join ''data'' ''a.txt'', ''prefix/a.txt''),
      (nt_join (nt_join ''data'' ''sub'') ''b.txt'', ''prefix/sub/b.txt'')]"
proof -
  let ?url = "''https://host/n/ns/b/bucket/o/prefix/''"
  let ?norm = "map (\<lambda>c. if c = CHR 0x5C then CHR ''/'' else c)"
  have 1: "oci demo" "oci demo_windows"
    by (simp_all add: demo_def demo_windows_def)
  have 2: "4 \<le> length (path_parts demo ?url)" "4 \<le> length (path_parts demo_windows ?url)"
    by (simp_all add: demo_simps demo_windows_def)
  have 3: "key_prefix (path_parts demo ?url) = ''prefix/''"
    "key_prefix (path_parts demo_windows ?url) = ''prefix/''"
    by (simp_all add: demo_simps demo_windows_def)
  have 4: "isdir demo ''data''" "isdir demo_windows ''data''"
    by (simp_all add: demo_simps demo_windows_def)
  have 5: "\<not> isdir demo ''input.tif''" "os_stat demo ''input.tif'' \<noteq> None"
    by (simp_all add: demo_simps)
  have "uploads (upload_files demo ?url ''data'') =
      map (\<lambda>fp. (fp, ''prefix/'' @ ?norm (relpath demo fp ''data'')))
        (filter (\<lambda>fp. os_stat demo fp \<noteq> None) (all_files demo ''data''))"
    using conjunct2[OF object_keys[OF 1(1) 2(1), of "''data''"]] unfolding 3 if_P[OF 4(1)] .
  also have "\<dots> = [(''data/a.txt'', ''prefix/a.txt''), (''data/sub/b.txt'', ''prefix/sub/b.txt'')]"
    by (simp add: demo_simps)
  finally have dir: "uploads (upload_files demo ?url ''data'') =
      [(''data/a.txt'', ''prefix/a.txt''), (''data/sub/b.txt'', ''prefix/sub/b.txt'')]" .
  have "uploads (upload_files demo ?url ''input.tif'') =
      [(''input.tif'', ''prefix/'' @ basename demo ''input.tif'')]"
    using conjunct2[OF object_keys[OF 1(1) 2(1), of "''input.tif''"]]
    unfolding 3 if_not_P[OF 5(1)] if_not_P[OF 5(2)] .
  also have "\<dots> = [(''input.tif'', ''prefix/input.tif'')]"
    by (simp add: demo_simps)
  finally have single: "uploads (upload_files demo ?url ''input.tif'') =
      [(''input.tif'', ''prefix/input.tif'')]" .
  have "uploads (upload_files demo_windows ?url ''data'') =
      map (\<lambda>fp. (fp, ''prefix/'' @ ?norm (relpath demo_windows fp ''data'')))
        (filter (\<lambda>fp. os_stat demo_windows fp \<noteq> None) (all_files demo_windows ''data''))"
    using conjunct2[OF object_keys[OF 1(2) 2(2), of "''data''"]] unfolding 3 if_P[OF 4(2)] .
  also have "\<dots> = [(nt_join ''data'' ''a.txt'', ''prefix/a.txt''),
      (nt_join (nt_join ''data'' ''sub'') ''b.txt'', ''prefix/sub/b.txt'')]"
    by (simp add: demo_simps demo_windows_def nt_join_def)
  finally have win: "uploads (upload_files demo_windows ?url ''data'') =
      [(nt_join ''data'' ''a.txt'', ''prefix/a.txt''),
       (nt_join (nt_join ''data'' ''sub'') ''b.txt'', ''prefix/sub/b.txt'')]" .
  have rel: "relpath demo_windows (nt_join (nt_join ''data'' ''sub'') ''b.txt'') ''data'' = nt_join ''sub'' ''b.txt''"
    by (simp add: demo_def demo_windows_def nt_join_def)
  from 1 2 3 dir single win rel show ?thesis
    by simp
qed

text \<open>
  Against C5 as stated: on the POSIX machine the relative path of the file \<open>a\b.txt\<close> has
  no path separator, yet its key is not the prefix followed by that path: it is
  \<open>prefix/a/b.txt\<close>, the key of the file \<open>a/b.txt\<close>.
\<close>

theorem object_keys_backslash_in_name:
  "relpath demo_backslash (''data/'' @ a_backslash_b) ''data'' = a_backslash_b \<and>
   CHR ''/'' \<notin> set a_backslash_b \<and>
   uploads (upload_files demo_backslash ''https://host/n/ns/b/bucket/o/prefix/'' ''data'') =
     [(''data/'' @ a_backslash_b, ''prefix/a/b.txt''), (''data/a/b.txt'', ''prefix/a/b.txt'')] \<and>
   ''prefix/a/b.txt'' \<noteq> key_prefix (path_parts demo_backslash ''https://host/n/ns/b/bucket/o/prefix/'')
      @ a_backslash_b"
  by (simp add: demo_simps demo_backslash_def a_backslash_b_def)

lemma upload_one_missing:
  assumes "os_stat w fp = None"
  shows "upload_one w ns b fp on =
    (\<lparr>file = basename w fp, success = False, etag = None, error = Some (FileNotFoundError fp)\<rparr>,
     [Getsize fp, Done (basename w fp) ''FAILED TO UPLOAD''])"
  using assms
  by (simp add: upload_one_def upload_one_except_def getsize_def SimpleProgress_done_def
      SimpleProgress_init_def Let_def)

lemma upload_one_transport_returns:
  assumes "os_stat w fp = Some st" and "upload_file w ns b on fp (2 * MEBIBYTE) = (deltas, Inr tag)"
  shows "upload_one w ns b fp on =
    (if st_size st = 0 \<and> deltas \<noteq> []
     then (\<lparr>file = basename w fp, success = False, etag = None, error = Some ZeroDivisionError\<rparr>,
           [Getsize fp, Upload ns b on fp (2 * MEBIBYTE)] @
           fst (increments (SimpleProgress_init (int (st_size st)) (basename w fp)) deltas) @
           [Done (basename w fp) ''FAILED TO UPLOAD''])
     else (\<lparr>file = basename w fp, success = True, etag = tag, error = None\<rparr>,
           [Getsize fp, Upload ns b on fp (2 * MEBIBYTE)] @
           fst (increments (SimpleProgress_init (int (st_size st)) (basename w fp)) deltas) @
           [Done (basename w fp) ''OK'']))"
proof -
  let ?p = "SimpleProgress_init (int (st_size st)) (basename w fp)"
  have "snd (increments ?p deltas) = (if st_size st = 0 \<and> deltas \<noteq> [] then Some ZeroDivisionError else None)"
    by (simp add: increments_raises SimpleProgress_init_def)
  then show ?thesis
    using assms
    by (cases "increments ?p deltas")
       (auto simp: upload_one_def upload_one_except_def getsize_def SimpleProgress_done_def
          SimpleProgress_init_def Let_def split: if_splits)
qed

lemma upload_one_transport_raises_trace:
  assumes "os_stat w fp = Some st" and "upload_file w ns b on fp (2 * MEBIBYTE) = (deltas, Inl e)"
  shows "snd (upload_one w ns b fp on) =
    [Getsize fp, Upload ns b on fp (2 * MEBIBYTE)] @
    fst (increments (SimpleProgress_init (int (st_size st)) (basename w fp)) deltas) @
    [Done (basename w fp) ''FAILED TO UPLOAD'']"
  using assms
  by (cases "increments (SimpleProgress_init (int (st_size st)) (basename w fp)) deltas")
     (auto simp: upload_one_def upload_one_except_def getsize_def SimpleProgress_done_def
        SimpleProgress_init_def Let_def split: option.splits)


text \<open>
  C6. \<open>upload_one\<close> returns a result in every case, and it is the result of the case:
  \<^item> the size of the file cannot be read: the failure record with that error, and the
    FAILED line;
  \<^item> the transport raises \<open>e\<close>: the failure record with \<open>e\<close> as its error, after the
    transport call and its progress lines, then the FAILED line;
  \<^item> the transport returns: the success record with the \<open>etag\<close> of the response, after
    the transport call and its progress lines, then the OK line.
  An empty file whose transport reports progress is the exception: the callback raises
  ZeroDivisionError, which is caught as an exception of the transport is. In every case
  the last effect is the one \<open>done\<close> line of the call, OK exactly when the result is a
  success.
\<close>

theorem upload_one_catches:
  "(os_stat w file_path = None \<longrightarrow>
      upload_one w namespace bucket file_path object_name =
        (\<lparr>file = basename w file_path, success = False, etag = None,
          error = Some (FileNotFoundError file_path)\<rparr>,
         [Getsize file_path, Done (basename w file_path) ''FAILED TO UPLOAD''])) \<and>
   (\<forall>st deltas e.
      os_stat w file_path = Some st \<longrightarrow>
      upload_file w namespace bucket object_name file_path (2 * MEBIBYTE) = (deltas, Inl e) \<longrightarrow>
      upload_one w namespace bucket file_path object_name =
        (\<lparr>file = basename w file_path, success = False, etag = None,
          error = Some (if st_size st = 0 \<and> deltas \<noteq> [] then ZeroDivisionError else e)\<rparr>,
         [Getsize file_path, Upload namespace bucket object_name file_path (2 * MEBIBYTE)] @
         fst (increments (SimpleProgress_init (int (st_size st)) (basename w file_path)) deltas) @
         [Done (basename w file_path) ''FAILED TO UPLOAD''])) \<and>
   (\<forall>st deltas tag.
      os_stat w file_path = Some st \<longrightarrow>
      upload_file w namespace bucket object_name file_path (2 * MEBIBYTE) = (deltas, Inr tag) \<longrightarrow>
      upload_one w namespace bucket file_path object_name =
        (if st_size st = 0 \<and> deltas \<noteq> []
         then (\<lparr>file = basename w file_path, success = False, etag = None,
                 error = Some ZeroDivisionError\<rparr>,
               [Getsize file_path, Upload namespace bucket object_name file_path (2 * MEBIBYTE)] @
               fst (increments (SimpleProgress_init (int (st_size st)) (basename w file_path)) deltas) @
               [Done (basename w file_path) ''FAILED TO UPLOAD''])
         else (\<lparr>file = basename w file_path, success = True, etag = tag, error = None\<rparr>,
               [Getsize file_path, Upload namespace bucket object_name file_path (2 * MEBIBYTE)] @
               fst (increments (SimpleProgress_init (int (st_size st)) (basename w file_path)) deltas) @
               [Done (basename w file_path) ''OK'']))) \<and>
   last (snd (upload_one w namespace bucket file_path object_name)) =
     Done (basename w file_path)
       (if success (fst (upload_one w namespace bucket file_path object_name))
        then ''OK'' else ''FAILED TO UPLOAD'') \<and>
   filter is_done_line (snd (upload_one w namespace bucket file_path object_name)) =
     [Done (basename w file_path)
        (if success (fst (upload_one w namespace bucket file_path object_name))
         then ''OK'' else ''FAILED TO UPLOAD'')]"
proof -
  let ?run = "upload_one w namespace bucket file_path object_name"
  have l: "last (snd ?run) = Done (basename w file_path) (if success (fst ?run) then ''OK'' else ''FAILED TO UPLOAD'')"
    using upload_one_last[of w namespace bucket file_path object_name] by simp
  have d: "filter is_done_line (snd ?run) =
      [Done (basename w file_path) (if success (fst ?run) then ''OK'' else ''FAILED TO UPLOAD'')]"
    using upload_one_done_lines[of w namespace bucket file_path object_name] l by simp
  have r: "?run =
        (\<lparr>file = basename w file_path, success = False, etag = None,
          error = Some (if st_size st = 0 \<and> deltas \<noteq> [] then ZeroDivisionError else e)\<rparr>,
         [Getsize file_path, Upload namespace bucket object_name file_path (2 * MEBIBYTE)] @
         fst (increments (SimpleProgress_init (int (st_size st)) (basename w file_path)) deltas) @
         [Done (basename w file_path) ''FAILED TO UPLOAD''])"
    if "os_stat w file_path = Some st"
      and "upload_file w namespace bucket object_name file_path (2 * MEBIBYTE) = (deltas, Inl e)"
    for st deltas e
    using upload_one_transport_raises[OF that] upload_one_transport_raises_trace[OF that]
    by (cases ?run) simp
  show ?thesis
    using l d r upload_one_missing upload_one_transport_returns by blast
qed

text \<open>
  The upload of \<open>data/a.txt\<close>, which succeeds; of \<open>data/sub/b.txt\<close>, whose connection
  breaks after 8 of 20 bytes; of a file that is not there.
\<close>

theorem upload_one_catches_witness:
  "upload_one demo ''ns'' ''bucket'' ''data/a.txt'' ''prefix/a.txt'' =
     (\<lparr>file = ''a.txt'', success = True, etag = Some ''e1'', error = None\<rparr>,
      [Getsize ''data/a.txt'', Upload ''ns'' ''bucket'' ''prefix/a.txt'' ''data/a.txt'' 2097152,
       Progress ''a.txt'' 100, Done ''a.txt'' ''OK'']) \<and>
   upload_one demo ''ns'' ''bucket'' ''data/sub/b.txt'' ''prefix/sub/b.txt'' =
     (\<lparr>file = ''b.txt'', success = False, etag = None, error = Some (OtherException ''connection reset'')\<rparr>,
      [Getsize ''data/sub/b.txt'', Upload ''ns'' ''bucket'' ''prefix/sub/b.txt'' ''data/sub/b.txt'' 2097152,
       Progress ''b.txt'' 40, Done ''b.txt'' ''FAILED TO UPLOAD'']) \<and>
   upload_one demo ''ns'' ''bucket'' ''missing.tif'' ''prefix/missing.tif'' =
     (\<lparr>file = ''missing.tif'', success = False, etag = None, error = Some (FileNotFoundError ''missing.tif'')\<rparr>,
      [Getsize ''missing.tif'', Done ''missing.tif'' ''FAILED TO UPLOAD''])"
proof -
  have a1: "os_stat demo ''data/a.txt'' = Some \<lparr>is_dir = False, st_size = 10\<rparr>"
    by (simp add: demo_def demo_fs_def)
  have a2: "upload_file demo ''ns'' ''bucket'' ''prefix/a.txt'' ''data/a.txt'' (2 * MEBIBYTE) =
     ([10], Inr (Some ''e1''))"
    by (simp add: demo_def demo_upload_file_def)
  have b1: "os_stat demo ''data/sub/b.txt'' = Some \<lparr>is_dir = False, st_size = 20\<rparr>"
    by (simp add: demo_def demo_fs_def)
  have b2: "upload_file demo ''ns'' ''bucket'' ''prefix/sub/b.txt'' ''data/sub/b.txt'' (2 * MEBIBYTE) =
     ([8], Inl (OtherException ''connection reset''))"
    by (simp add: demo_def demo_upload_file_def)
  have c1: "os_stat demo ''missing.tif'' = None"
    by (simp add: demo_def demo_fs_def)
  have n: "basename demo ''data/a.txt'' = ''a.txt''" "basename demo ''data/sub/b.txt'' = ''b.txt''"
    "basename demo ''missing.tif'' = ''missing.tif''"
    by (simp_all add: demo_def posix_basename_def slash_def)
  have m: "2 * MEBIBYTE = 2097152"
    by (simp add: MEBIBYTE_def)
  from upload_one_catches[of demo "''data/a.txt''" "''ns''" "''bucket''" "''prefix/a.txt''"] a1 a2
  have a: "upload_one demo ''ns'' ''bucket'' ''data/a.txt'' ''prefix/a.txt'' =
     (\<lparr>file = ''a.txt'', success = True, etag = Some ''e1'', error = None\<rparr>,
      [Getsize ''data/a.txt'', Upload ''ns'' ''bucket'' ''prefix/a.txt'' ''data/a.txt'' 2097152,
       Progress ''a.txt'' 100, Done ''a.txt'' ''OK''])"
    by (simp add: n m SimpleProgress_init_def SimpleProgress_call_def)
  from upload_one_catches[of demo "''data/sub/b.txt''" "''ns''" "''bucket''" "''prefix/sub/b.txt''"] b1 b2
  have b: "upload_one demo ''ns'' ''bucket'' ''data/sub/b.txt'' ''prefix/sub/b.txt'' =
     (\<lparr>file = ''b.txt'', success = False, etag = None, error = Some (OtherException ''connection reset'')\<rparr>,
      [Getsize ''data/sub/b.txt'', Upload ''ns'' ''bucket'' ''prefix/sub/b.txt'' ''data/sub/b.txt'' 2097152,
       Progress ''b.txt'' 40, Done ''b.txt'' ''FAILED TO UPLOAD''])"
    by (simp add: n m SimpleProgress_init_def SimpleProgress_call_def)
  from upload_one_catches[of demo "''missing.tif''" "''ns''" "''bucket''" "''prefix/missing.tif''"] c1
  have c: "upload_one demo ''ns'' ''bucket'' ''missing.tif'' ''prefix/missing.tif'' =
     (\<lparr>file = ''missing.tif'', success = False, etag = None, error = Some (FileNotFoundError ''missing.tif'')\<rparr>,
      [Getsize ''missing.tif'', Done ''missing.tif'' ''FAILED TO UPLOAD''])"
    by (simp add: n)
  from a b c show ?thesis
    by simp
qed

lemma upload_files_returns:
  assumes "ret (upload_files w url p) = Inr v"
  shows "oci w \<and> 4 \<le> length (path_parts w url)"
proof (rule ccontr)
  assume "\<not> (oci w \<and> 4 \<le> length (path_parts w url))"
  then have "\<exists>e. ret (upload_files w url p) = Inl e"
    by (auto simp: upload_files_def index_def raised_def Let_def)
  with assms show False by simp
qed

lemma filter_error_records_map:
  "filter is_error_record (map (\<lambda>r. Log ERROR (g r)) xs) = map (\<lambda>r. Log ERROR (g r)) xs"
  by (induction xs) simp_all

text \<open>
  C1 (as amended). The claim is that \<open>upload_files\<close> returns the results of the session
  and its failure count. The method is declared \<open>-> None\<close> and has no \<open>return\<close>
  statement: a call that does not raise returns \<open>None\<close>. The results only reach the log:
  the error records of the call are, in the order in which the results were received, one
  record for each failed result, with its file and its error.
\<close>

theorem upload_files_returns_none:
  assumes "ret (upload_files w upload_url local_path) = Inr v"
  shows "ret (upload_files w upload_url local_path) = Inr () \<and>
    filter is_error_record (trace (upload_files w upload_url local_path)) =
      map (\<lambda>r. Log ERROR (Failed_to_upload (file r) (error r)))
        (filter (\<lambda>r. \<not> success r) (collected (upload_files w upload_url local_path)))"
proof -
  from upload_files_returns[OF assms] have w: "oci w" "4 \<le> length (path_parts w upload_url)"
    by simp_all
  show ?thesis
  proof (cases "isdir w local_path")
    case True
    show ?thesis
      by (simp add: upload_files_dir[OF w True] Let_def filter_error_records_map)
  next
    case False
    show ?thesis
      by (simp add: upload_files_single[OF w False] Let_def upload_one_no_error_record)
  qed
qed

text \<open>The upload of \<open>data\<close>, where \<open>b.txt\<close> fails.\<close>

theorem upload_files_returns_none_witness:
  "ret (upload_files demo ''https://host/n/ns/b/bucket/o/prefix/'' ''data'') = Inr () \<and>
   filter is_error_record (trace (upload_files demo ''https://host/n/ns/b/bucket/o/prefix/'' ''data'')) =
     [Log ERROR (Failed_to_upload ''b.txt'' (Some (OtherException ''connection reset'')))]"
proof -
  have r: "ret (upload_files demo ''https://host/n/ns/b/bucket/o/prefix/'' ''data'') = Inr ()"
    by (simp add: demo_simps)
  have c: "map (\<lambda>r. Log ERROR (Failed_to_upload (file r) (error r)))
      (filter (\<lambda>r. \<not> success r) (collected (upload_files demo ''https://host/n/ns/b/bucket/o/prefix/'' ''data'')))
    = [Log ERROR (Failed_to_upload ''b.txt'' (Some (OtherException ''connection reset'')))]"
    by (simp add: demo_simps)
  from upload_files_returns_none[OF r] r show ?thesis
    unfolding c by simp
qed

text \<open>
  Against C1 as stated: a session with two results, one of them failed, and a session with
  one successful result return the same value, \<open>None\<close>.
\<close>

theorem upload_files_same_return:
  "ret (upload_files demo ''https://host/n/ns/b/bucket/o/prefix/'' ''data'') = Inr () \<and>
   ret (upload_files demo ''https://host/n/ns/b/bucket/o/prefix/'' ''input.tif'') = Inr () \<and>
   map success (collected (upload_files demo ''https://host/n/ns/b/bucket/o/prefix/'' ''data'')) = [True, False] \<and>
   map success (collected (upload_files demo ''https://host/n/ns/b/bucket/o/prefix/'' ''input.tif'')) = [True]"
  by (simp add: demo_simps)

text \<open>
  C4 (as amended). For a directory in which \<open>os.walk\<close> lists N files, \<open>upload_files\<close>
  submits N calls of \<open>upload_one\<close> and receives N results, whatever the order of the
  traversal and of completion: the filenames of the results are, as a multiset, the
  basenames of the files. They are distinct exactly when the basenames are: the result
  carries \<open>os.path.basename(file_path)\<close>, not the path below the directory.
\<close>

theorem upload_files_one_result_per_file:
  assumes "oci w" and "4 \<le> length (path_parts w upload_url)" and "isdir w local_path"
  shows "ret (upload_files w upload_url local_path) = Inr () \<and>
    length (collected (upload_files w upload_url local_path)) = length (all_files w local_path) \<and>
    length (pool (upload_files w upload_url local_path)) = length (all_files w local_path) \<and>
    mset (map file (collected (upload_files w upload_url local_path))) =
      mset (map (basename w) (all_files w local_path)) \<and>
    (distinct (map file (collected (upload_files w upload_url local_path))) \<longleftrightarrow>
      distinct (map (basename w) (all_files w local_path)))"
proof -
  let ?s = "upload_files w upload_url local_path"
  let ?parts = "path_parts w upload_url"
  let ?run = "\<lambda>fp. upload_one w (?parts ! 1) (?parts ! 3) fp
      (key_prefix ?parts @ replace_backslash (relpath w fp local_path))"
  have c: "collected ?s = as_completed (completion w) (map (\<lambda>fp. fst (?run fp)) (all_files w local_path))"
    by (simp add: upload_files_dir[OF assms] Let_def comp_def)
  have m: "mset (collected ?s) = mset (map (\<lambda>fp. fst (?run fp)) (all_files w local_path))"
    unfolding c by (rule mset_as_completed)
  have "mset (map file (collected ?s)) = image_mset file (mset (collected ?s))"
    by (simp only: mset_map)
  also have "\<dots> = image_mset file (mset (map (\<lambda>fp. fst (?run fp)) (all_files w local_path)))"
    by (simp only: m)
  also have "\<dots> = mset (map file (map (\<lambda>fp. fst (?run fp)) (all_files w local_path)))"
    by (simp only: mset_map)
  also have "\<dots> = mset (map (basename w) (all_files w local_path))"
    by (simp add: comp_def upload_one_file)
  finally have names: "mset (map file (collected ?s)) = mset (map (basename w) (all_files w local_path))" .
  have "length (collected ?s) = length (all_files w local_path)"
    using arg_cong[OF m, of size] by simp
  moreover have "length (pool ?s) = length (all_files w local_path)"
    by (simp add: upload_files_dir[OF assms] Let_def)
  moreover have "ret ?s = Inr ()"
    by (simp add: upload_files_dir[OF assms] Let_def)
  moreover have "distinct (map file (collected ?s)) \<longleftrightarrow> distinct (map (basename w) (all_files w local_path))"
    using names by (rule mset_eq_imp_distinct_iff)
  ultimately show ?thesis
    using names by simp
qed

text \<open>A directory with \<open>x/r.tif\<close> and \<open>y/r.tif\<close>.\<close>

theorem upload_files_one_result_per_file_witness:
  "oci demo_twins \<and> 4 \<le> length (path_parts demo_twins ''https://host/n/ns/b/bucket/o/prefix/'') \<and>
   isdir demo_twins ''data'' \<and>
   all_files demo_twins ''data'' = [''data/x/r.tif'', ''data/y/r.tif''] \<and>
   length (collected (upload_files demo_twins ''https://host/n/ns/b/bucket/o/prefix/'' ''data'')) = 2 \<and>
   mset (map file (collected (upload_files demo_twins ''https://host/n/ns/b/bucket/o/prefix/'' ''data''))) =
     mset [''r.tif'', ''r.tif'']"
proof -
  have 1: "oci demo_twins"
    by (simp add: demo_simps)
  have 2: "4 \<le> length (path_parts demo_twins ''https://host/n/ns/b/bucket/o/prefix/'')"
    by (simp add: demo_simps)
  have 3: "isdir demo_twins ''data''"
    by (simp add: demo_simps)
  have 4: "all_files demo_twins ''data'' = [''data/x/r.tif'', ''data/y/r.tif'']"
    by (simp add: demo_simps)
  have 5: "map (basename demo_twins) [''data/x/r.tif'', ''data/y/r.tif''] = [''r.tif'', ''r.tif'']"
    by (simp add: demo_simps)
  from upload_files_one_result_per_file[OF 1 2 3] 1 2 3 show ?thesis
    unfolding 4 5 by simp
qed

text \<open>
  Against C4 as stated: two distinct files under the directory, uploaded under two distinct
  keys, give two results with the same filename.
\<close>

theorem upload_files_equal_filenames:
  "distinct (all_files demo_twins ''data'') \<and>
   map file (collected (upload_files demo_twins ''https://host/n/ns/b/bucket/o/prefix/'' ''data'')) =
     [''r.tif'', ''r.tif''] \<and>
   uploads (upload_files demo_twins ''https://host/n/ns/b/bucket/o/prefix/'' ''data'') =
     [(''data/x/r.tif'', ''prefix/x/r.tif''), (''data/y/r.tif'', ''prefix/y/r.tif'')]"
  by (simp add: demo_simps)

subsection \<open>The SDK is optional\<close>

lemma api_call_oci: "api_call (w\<lparr>oci := b\<rparr>) m ep payload failed = api_call w m ep payload failed"
  by (simp add: api_call_def)

lemma download_file_oci: "download_file (w\<lparr>oci := b\<rparr>) par_url output_dir file_info = download_file w par_url output_dir file_info"
  by (simp add: download_file_def Let_def split: sum.splits json.splits option.splits prod.splits)

lemma download_loop_oci: "download_loop (w\<lparr>oci := b\<rparr>) par_url output_dir files = download_loop w par_url output_dir files"
  by (induction files) (simp_all add: download_file_oci split: sum.splits prod.splits)

lemma download_results_oci: "download_results (w\<lparr>oci := b\<rparr>) batch_id output_dir = download_results w batch_id output_dir"
  by (simp add: download_results_def get_results_def api_call_oci download_loop_oci
      split: sum.splits prod.splits option.splits)

text \<open>
  C10. Without the SDK, every call of \<open>upload_files\<close> raises ImportError with no effect:
  the URL is not parsed, the file system is not read, nothing is uploaded or printed and no
  result is produced. The other operations never look at the SDK: each behaves as it does
  with the SDK present.
\<close>

theorem upload_files_without_oci:
  assumes "\<not> oci w"
  shows "upload_files w upload_url local_path =
      \<lparr>ret = Inl (ImportError ''OCI SDK is not available. Please install `oci` to use this feature.''),
       trace = [], pool = [], collected = []\<rparr> \<and>
    init_batch w name algorithm = init_batch (w\<lparr>oci := True\<rparr>) name algorithm \<and>
    start_batch w batch_id = start_batch (w\<lparr>oci := True\<rparr>) batch_id \<and>
    get_batch_status w batch_id = get_batch_status (w\<lparr>oci := True\<rparr>) batch_id \<and>
    get_results w batch_id = get_results (w\<lparr>oci := True\<rparr>) batch_id \<and>
    download_results w batch_id output_dir = download_results (w\<lparr>oci := True\<rparr>) batch_id output_dir \<and>
    get_all_batches w n = get_all_batches (w\<lparr>oci := True\<rparr>) n \<and>
    get_algorithms w = get_algorithms (w\<lparr>oci := True\<rparr>)"
  using assms
  by (simp add: upload_files_def raised_def init_batch_def start_batch_def get_batch_status_def
      get_results_def get_all_batches_def get_algorithms_def api_call_oci download_results_oci)

lemmas service_simps = demo_offline_def demo_bad_target_def demo_no_par_def demo_no_oci_def
  api_call_def raise_for_status_def init_batch_def start_batch_def get_batch_status_def get_results_def
  get_all_batches_def get_algorithms_def download_results_def download_file_def fetch_failure_def
  upload_files_of_def run_batch_def steps_def

text \<open>The machine without the SDK still creates a batch and reads its status.\<close>

theorem upload_files_without_oci_witness:
  "\<not> oci demo_no_oci \<and>
   upload_files demo_no_oci ''https://host/n/ns/b/bucket/o/prefix/'' ''data'' =
     \<lparr>ret = Inl (ImportError ''OCI SDK is not available. Please install `oci` to use this feature.''),
      trace = [], pool = [], collected = []\<rparr> \<and>
   init_batch demo_no_oci (Some ''Test Batch'') 26 =
     (Inr (JObj [(''batch_id'', JNum 7),
                 (''object_storage_url'', JStr ''https://host/n/ns/b/bucket/o/prefix/'')]),
      [Request POST Batches (JObj [(''batch_name'', JStr ''Test Batch''), (''algorithm'', JNum 26)])]) \<and>
   get_batch_status demo_no_oci (JNum 7) =
     (Inr (JObj [(''status'', JStr ''running'')]), [Request GET (Batch (JNum 7)) JNull])"
proof -
  have 1: "\<not> oci demo_no_oci"
    by (simp add: demo_no_oci_def)
  have 2: "demo_no_oci\<lparr>oci := True\<rparr> = demo"
    by (simp add: demo_no_oci_def demo_def)
  have 3: "init_batch demo (Some ''Test Batch'') 26 =
     (Inr (JObj [(''batch_id'', JNum 7),
                 (''object_storage_url'', JStr ''https://host/n/ns/b/bucket/o/prefix/'')]),
      [Request POST Batches (JObj [(''batch_name'', JStr ''Test Batch''), (''algorithm'', JNum 26)])])"
    by (simp add: demo_simps service_simps)
  have 4: "get_batch_status demo (JNum 7) =
     (Inr (JObj [(''status'', JStr ''running'')]), [Request GET (Batch (JNum 7)) JNull])"
    by (simp add: demo_simps service_simps)
  from upload_files_without_oci[OF 1, of "''https://host/n/ns/b/bucket/o/prefix/''" "''data''" "Some ''Test Batch''" 26 "JNum 7"]
  show ?thesis
    unfolding 2 3 4 using 1 by simp
qed

subsection \<open>download\_results\<close>

















subsection \<open>run\_batch\<close>

lemma api_call_steps:
  assumes "\<And>e. step_of_message (failed e) = None"
  shows "List.map_filter step_of (snd (api_call w m ep payload failed)) =
    (case step_of_request m ep of None \<Rightarrow> [] | Some s \<Rightarrow> [s])"
  using assms
  by (simp add: api_call_def Let_def map_filter_simps split: sum.splits option.splits)

lemma increments_steps: "ev \<in> set (fst (increments p ds)) \<Longrightarrow> step_of ev = Some Uploading"
  using increments_lines by fastforce

lemma upload_one_steps:
  assumes "ev \<in> set (snd (upload_one w ns b fp on))"
  shows "step_of ev = Some Uploading"
proof -
  have *: "increments p ds = (lines, r) \<Longrightarrow> ev \<in> set lines \<Longrightarrow> step_of ev = Some Uploading" for p ds lines r
    using increments_steps[of ev p ds] by simp
  show ?thesis
    using assms
    by (auto simp: upload_one_def upload_one_except_def SimpleProgress_done_def Let_def
        split: sum.splits prod.splits option.splits dest: *)
qed

lemma upload_files_steps:
  assumes "ev \<in> set (trace (upload_files w url p))"
  shows "step_of ev = Some Uploading"
proof (cases "oci w \<and> 4 \<le> length (path_parts w url)")
  case False
  then have "trace (upload_files w url p) = []"
    by (auto simp: upload_files_def index_def raised_def Let_def)
  with assms show ?thesis by simp
next
  case True
  then have w: "oci w" "4 \<le> length (path_parts w url)"
    by simp_all
  show ?thesis
  proof (cases "isdir w p")
    case True
    with assms show ?thesis
      by (auto simp: upload_files_dir[OF w True] Let_def)
  next
    case False
    with assms upload_one_steps show ?thesis
      by (auto simp: upload_files_single[OF w False] Let_def)
  qed
qed

lemma map_filter_all_same:
  "\<forall>x \<in> set xs. f x = Some s \<Longrightarrow> List.map_filter f xs = replicate (length xs) s"
  by (induction xs) (simp_all add: map_filter_simps)

lemma upload_files_of_steps:
  "List.map_filter step_of (trace (upload_files_of w upload_url p)) =
     replicate (length (trace (upload_files_of w upload_url p))) Uploading"
proof -
  have "\<forall>ev \<in> set (trace (upload_files_of w upload_url p)). step_of ev = Some Uploading"
    using upload_files_steps
    by (auto simp: upload_files_of_def raised_def split: json.splits)
  then show ?thesis
    by (rule map_filter_all_same)
qed

lemma upload_files_of_raises:
  "ret (upload_files_of w upload_url p) = Inl e \<Longrightarrow> upload_files_of w upload_url p = raised e"
  using upload_files_raises
  by (auto simp: upload_files_of_def raised_def split: json.splits if_splits)

lemma remdups_adj_replicate_Cons:
  "remdups_adj (x # replicate k x @ ys) = remdups_adj (x # ys)"
  by (induction k) simp_all

lemma run_batch_steps:
  "prefix (remdups_adj (steps (run_batch w algorithm input_path name))) [Create, Uploading, Start, Status] \<and>
   (\<forall>e. fst (init_batch w name algorithm) = Inl e \<longrightarrow>
      result (run_batch w algorithm input_path name) = Inl e \<and>
      steps (run_batch w algorithm input_path name) = [Create] \<and>
      workers (run_batch w algorithm input_path name) = []) \<and>
   (\<forall>batch_info upload_url batch_id e.
      fst (init_batch w name algorithm) = Inr batch_info \<longrightarrow>
      subscript batch_info ''object_storage_url'' = Inr upload_url \<longrightarrow>
      subscript batch_info ''batch_id'' = Inr batch_id \<longrightarrow>
      ret (upload_files_of w upload_url input_path) = Inl e \<longrightarrow>
      result (run_batch w algorithm input_path name) = Inl e \<and>
      steps (run_batch w algorithm input_path name) = [Create, Uploading] \<and>
      workers (run_batch w algorithm input_path name) = []) \<and>
   (\<forall>v. result (run_batch w algorithm input_path name) = Inr v \<longrightarrow>
      remdups_adj (steps (run_batch w algorithm input_path name)) = [Create, Uploading, Start, Status])"
proof -
  let ?r = "run_batch w algorithm input_path name"
  obtain ra tra where A: "init_batch w name algorithm = (ra, tra)"
    by fastforce
  have "List.map_filter step_of (snd (init_batch w name algorithm)) = [Create]"
    by (simp add: init_batch_def Let_def api_call_steps)
  then have sa: "List.map_filter step_of tra = [Create]"
    unfolding A by simp
  show ?thesis
  proof (cases ra)
    case (Inl e)
    then show ?thesis
      by (simp add: run_batch_def A steps_def sa map_filter_simps)
  next
    case (Inr batch_info)
    note bi = this
    show ?thesis
    proof (cases "subscript batch_info ''object_storage_url''")
      case (Inl e)
      then show ?thesis
        by (simp add: run_batch_def A bi steps_def sa map_filter_simps)
    next
      case (Inr upload_url)
      note u = this
      show ?thesis
      proof (cases "subscript batch_info ''batch_id''")
        case (Inl e)
        then show ?thesis
          by (simp add: run_batch_def A bi u steps_def sa map_filter_simps)
      next
        case (Inr batch_id)
        note b = this
        let ?s = "upload_files_of w upload_url input_path"
        let ?k = "length (trace ?s)"
        have su: "List.map_filter step_of (trace ?s) = replicate ?k Uploading"
          by (rule upload_files_of_steps)
        show ?thesis
        proof (cases "ret ?s")
          case (Inl e)
          from upload_files_of_raises[OF this] have "trace ?s = []" "pool ?s = []"
            by (simp_all add: raised_def)
          with Inl show ?thesis
            by (simp add: run_batch_def A bi u b steps_def sa map_filter_simps map_filter_append Let_def)
        next
          case (Inr unit)
          note up = this
          obtain rb trb where B: "start_batch w batch_id = (rb, trb)"
            by fastforce
          have "List.map_filter step_of (snd (start_batch w batch_id)) = [Start]"
            by (simp add: start_batch_def api_call_steps)
          then have sb: "List.map_filter step_of trb = [Start]"
            unfolding B by simp
          obtain rc trc where C: "get_batch_status w batch_id = (rc, trc)"
            by fastforce
          have "List.map_filter step_of (snd (get_batch_status w batch_id)) = [Status]"
            by (simp add: get_batch_status_def api_call_steps)
          then have sc: "List.map_filter step_of trc = [Status]"
            unfolding C by simp
          show ?thesis
          proof (cases rb)
            case (Inl e)
            then show ?thesis
              by (simp add: run_batch_def A bi u b up B steps_def sa sb su map_filter_simps
                  map_filter_append Let_def remdups_adj_replicate_Cons)
          next
            case (Inr start_response)
            then show ?thesis
              by (cases rc)
                 (simp_all add: run_batch_def A bi u b up B C steps_def sa sb sc su map_filter_simps
                  map_filter_append Let_def remdups_adj_replicate_Cons)
          qed
        qed
      qed
    qed
  qed
qed


lemma run_batch_completes:
  assumes "init_batch w name algorithm = (Inr batch_info, tr1)"
    and "subscript batch_info ''object_storage_url'' = Inr upload_url"
    and "subscript batch_info ''batch_id'' = Inr batch_id"
    and "ret (upload_files_of w upload_url input_path) = Inr u"
    and "start_batch w batch_id = (Inr start_response, tr3)"
    and "get_batch_status w batch_id = (Inr status, tr4)"
  shows "run_batch w algorithm input_path name =
    \<lparr>result = Inr (JObj [(''batch_id'', batch_id), (''start_response'', start_response),
                         (''status'', status)]),
     effects = [Log INFO Initializing_batch] @ tr1 @
               [Log INFO Uploading_files] @ trace (upload_files_of w upload_url input_path) @
               [Log INFO Starting_batch] @ tr3 @
               [Log INFO Checking_status] @ tr4,
     workers = pool (upload_files_of w upload_url input_path)\<rparr>"
  using assms
  by (simp add: run_batch_def Let_def)

lemma run_batch_start_raises:
  assumes "init_batch w name algorithm = (Inr batch_info, tr1)"
    and "subscript batch_info ''object_storage_url'' = Inr upload_url"
    and "subscript batch_info ''batch_id'' = Inr batch_id"
    and "ret (upload_files_of w upload_url input_path) = Inr u"
    and "start_batch w batch_id = (Inl e, tr3)"
  shows "result (run_batch w algorithm input_path name) = Inl e \<and>
    remdups_adj (steps (run_batch w algorithm input_path name)) = [Create, Uploading, Start]"
proof -
  have "List.map_filter step_of (snd (init_batch w name algorithm)) = [Create]"
    by (simp add: init_batch_def Let_def api_call_steps)
  then have sa: "List.map_filter step_of tr1 = [Create]"
    unfolding assms(1) by simp
  have "List.map_filter step_of (snd (start_batch w batch_id)) = [Start]"
    by (simp add: start_batch_def api_call_steps)
  then have sb: "List.map_filter step_of tr3 = [Start]"
    unfolding assms(5) by simp
  show ?thesis
    using assms
    by (simp add: run_batch_def steps_def sa sb upload_files_of_steps map_filter_simps
        map_filter_append Let_def remdups_adj_replicate_Cons)
qed

text \<open>
  C7. The external steps of \<open>run_batch\<close> come in the order create, upload, start, status:
  the steps of every run, with repetitions of the upload step merged, are a prefix of that
  sequence. When create raises, the run raises the same exception and create is its only
  step: no upload, no start, no worker. When \<open>upload_files\<close> raises, the run raises the
  same exception after the steps create and upload: start is never called. A run that
  returns has gone through the four steps. When start raises, the run raises after the
  steps create, upload, start. And a run in which nothing raises returns the batch id, the
  start response and the status, after the effects of \<open>init_batch\<close>, \<open>upload_files\<close>,
  \<open>start_batch\<close> and \<open>get_batch_status\<close> in that order, each behind its log record.
\<close>

theorem run_batch_order:
  "prefix (remdups_adj (steps (run_batch w algorithm input_path name))) [Create, Uploading, Start, Status] \<and>
   (\<forall>e. fst (init_batch w name algorithm) = Inl e \<longrightarrow>
      result (run_batch w algorithm input_path name) = Inl e \<and>
      steps (run_batch w algorithm input_path name) = [Create] \<and>
      workers (run_batch w algorithm input_path name) = []) \<and>
   (\<forall>batch_info upload_url batch_id e.
      fst (init_batch w name algorithm) = Inr batch_info \<longrightarrow>
      subscript batch_info ''object_storage_url'' = Inr upload_url \<longrightarrow>
      subscript batch_info ''batch_id'' = Inr batch_id \<longrightarrow>
      ret (upload_files_of w upload_url input_path) = Inl e \<longrightarrow>
      result (run_batch w algorithm input_path name) = Inl e \<and>
      steps (run_batch w algorithm input_path name) = [Create, Uploading] \<and>
      workers (run_batch w algorithm input_path name) = []) \<and>
   (\<forall>v. result (run_batch w algorithm input_path name) = Inr v \<longrightarrow>
      remdups_adj (steps (run_batch w algorithm input_path name)) = [Create, Uploading, Start, Status]) \<and>
   (\<forall>batch_info tr1 upload_url batch_id u e tr3.
      init_batch w name algorithm = (Inr batch_info, tr1) \<longrightarrow>
      subscript batch_info ''object_storage_url'' = Inr upload_url \<longrightarrow>
      subscript batch_info ''batch_id'' = Inr batch_id \<longrightarrow>
      ret (upload_files_of w upload_url input_path) = Inr u \<longrightarrow>
      start_batch w batch_id = (Inl e, tr3) \<longrightarrow>
      result (run_batch w algorithm input_path name) = Inl e \<and>
      remdups_adj (steps (run_batch w algorithm input_path name)) = [Create, Uploading, Start]) \<and>
   (\<forall>batch_info tr1 upload_url batch_id u start_response tr3 status tr4.
      init_batch w name algorithm = (Inr batch_info, tr1) \<longrightarrow>
      subscript batch_info ''object_storage_url'' = Inr upload_url \<longrightarrow>
      subscript batch_info ''batch_id'' = Inr batch_id \<longrightarrow>
      ret (upload_files_of w upload_url input_path) = Inr u \<longrightarrow>
      start_batch w batch_id = (Inr start_response, tr3) \<longrightarrow>
      get_batch_status w batch_id = (Inr status, tr4) \<longrightarrow>
      run_batch w algorithm input_path name =
        \<lparr>result = Inr (JObj [(''batch_id'', batch_id), (''start_response'', start_response),
                             (''status'', status)]),
         effects = [Log INFO Initializing_batch] @ tr1 @
                   [Log INFO Uploading_files] @ trace (upload_files_of w upload_url input_path) @
                   [Log INFO Starting_batch] @ tr3 @
                   [Log INFO Checking_status] @ tr4,
         workers = pool (upload_files_of w upload_url input_path)\<rparr>)"
proof -
  note s = run_batch_steps[of w algorithm input_path name]
  have "\<And>batch_info tr1 upload_url batch_id u e tr3.
      init_batch w name algorithm = (Inr batch_info, tr1) \<Longrightarrow>
      subscript batch_info ''object_storage_url'' = Inr upload_url \<Longrightarrow>
      subscript batch_info ''batch_id'' = Inr batch_id \<Longrightarrow>
      ret (upload_files_of w upload_url input_path) = Inr u \<Longrightarrow>
      start_batch w batch_id = (Inl e, tr3) \<Longrightarrow>
      result (run_batch w algorithm input_path name) = Inl e \<and>
      remdups_adj (steps (run_batch w algorithm input_path name)) = [Create, Uploading, Start]"
    by (rule run_batch_start_raises)
  moreover have "\<And>batch_info tr1 upload_url batch_id u start_response tr3 status tr4.
      init_batch w name algorithm = (Inr batch_info, tr1) \<Longrightarrow>
      subscript batch_info ''object_storage_url'' = Inr upload_url \<Longrightarrow>
      subscript batch_info ''batch_id'' = Inr batch_id \<Longrightarrow>
      ret (upload_files_of w upload_url input_path) = Inr u \<Longrightarrow>
      start_batch w batch_id = (Inr start_response, tr3) \<Longrightarrow>
      get_batch_status w batch_id = (Inr status, tr4) \<Longrightarrow>
      run_batch w algorithm input_path name =
        \<lparr>result = Inr (JObj [(''batch_id'', batch_id), (''start_response'', start_response),
                             (''status'', status)]),
         effects = [Log INFO Initializing_batch] @ tr1 @
                   [Log INFO Uploading_files] @ trace (upload_files_of w upload_url input_path) @
                   [Log INFO Starting_batch] @ tr3 @
                   [Log INFO Checking_status] @ tr4,
         workers = pool (upload_files_of w upload_url input_path)\<rparr>"
    by (rule run_batch_completes)
  ultimately show ?thesis
    using s by (intro conjI allI impI) (blast+)?
qed

text \<open>
  A complete run; a run without a network, where create fails; a run whose upload target
  has one segment, where \<open>upload_files\<close> raises IndexError.
\<close>

theorem run_batch_order_witness:
  "run_batch demo 26 ''input.tif'' (Some ''Test Batch'') =
     \<lparr>result = Inr (JObj [(''batch_id'', JNum 7),
                          (''start_response'', JObj [(''started'', JBool True)]),
                          (''status'', JObj [(''status'', JStr ''running'')])]),
      effects =
        [Log INFO Initializing_batch,
         Request POST Batches (JObj [(''batch_name'', JStr ''Test Batch''), (''algorithm'', JNum 26)]),
         Log INFO Uploading_files,
         Isdir ''input.tif'', Getsize ''input.tif'',
         Upload ''ns'' ''bucket'' ''prefix/input.tif'' ''input.tif'' 2097152,
         Progress ''input.tif'' 100, Done ''input.tif'' ''OK'',
         Log INFO (Uploaded ''input.tif'' (Some ''e2'')),
         Log INFO Starting_batch, Request POST (Batch (JNum 7)) (JObj []),
         Log INFO Checking_status, Request GET (Batch (JNum 7)) JNull],
      workers = []\<rparr> \<and>
   remdups_adj (steps (run_batch demo 26 ''input.tif'' (Some ''Test Batch''))) =
     [Create, Uploading, Start, Status] \<and>
   result (run_batch demo_offline 26 ''input.tif'' (Some ''Test Batch'')) =
     Inl (RequestException ''connection refused'') \<and>
   steps (run_batch demo_offline 26 ''input.tif'' (Some ''Test Batch'')) = [Create] \<and>
   result (run_batch demo_bad_target 26 ''input.tif'' (Some ''Test Batch'')) = Inl IndexError \<and>
   steps (run_batch demo_bad_target 26 ''input.tif'' (Some ''Test Batch'')) = [Create, Uploading] \<and>
   workers (run_batch demo_bad_target 26 ''input.tif'' (Some ''Test Batch'')) = []"
proof -
  let ?url = "''https://host/n/ns/b/bucket/o/prefix/''"
  let ?info = "JObj [(''batch_id'', JNum 7), (''object_storage_url'', JStr ?url)]"
  let ?bad = "JObj [(''batch_id'', JNum 7), (''object_storage_url'', JStr ''https://host/n'')]"
  note D = run_batch_order[of demo 26 "''input.tif''" "Some ''Test Batch''"]
  note F = run_batch_order[of demo_offline 26 "''input.tif''" "Some ''Test Batch''"]
  note B = run_batch_order[of demo_bad_target 26 "''input.tif''" "Some ''Test Batch''"]
  have d1: "init_batch demo (Some ''Test Batch'') 26 =
      (Inr ?info, [Request POST Batches (JObj [(''batch_name'', JStr ''Test Batch''), (''algorithm'', JNum 26)])])"
    by (simp add: demo_simps service_simps)
  have d2: "subscript ?info ''object_storage_url'' = Inr (JStr ?url)"
    by simp
  have d3: "subscript ?info ''batch_id'' = Inr (JNum 7)"
    by simp
  have d4: "upload_files_of demo (JStr ?url) ''input.tif'' =
      \<lparr>ret = Inr (),
       trace = [Isdir ''input.tif'', Getsize ''input.tif'',
                Upload ''ns'' ''bucket'' ''prefix/input.tif'' ''input.tif'' 2097152,
                Progress ''input.tif'' 100, Done ''input.tif'' ''OK'',
                Log INFO (Uploaded ''input.tif'' (Some ''e2''))],
       pool = [],
       collected = [\<lparr>file = ''input.tif'', success = True, etag = Some ''e2'', error = None\<rparr>]\<rparr>"
    by (simp add: demo_simps service_simps)
  have d5: "ret (upload_files_of demo (JStr ?url) ''input.tif'') = Inr ()"
    by (simp add: d4)
  have d6: "start_batch demo (JNum 7) =
      (Inr (JObj [(''started'', JBool True)]), [Request POST (Batch (JNum 7)) (JObj [])])"
    by (simp add: demo_simps service_simps)
  have d7: "get_batch_status demo (JNum 7) =
      (Inr (JObj [(''status'', JStr ''running'')]), [Request GET (Batch (JNum 7)) JNull])"
    by (simp add: demo_simps service_simps)
  from D[THEN conjunct2, THEN conjunct2, THEN conjunct2, THEN conjunct2, THEN conjunct2, rule_format, OF d1 d2 d3 d5 d6 d7]
  have 1: "run_batch demo 26 ''input.tif'' (Some ''Test Batch'') =
     \<lparr>result = Inr (JObj [(''batch_id'', JNum 7),
                          (''start_response'', JObj [(''started'', JBool True)]),
                          (''status'', JObj [(''status'', JStr ''running'')])]),
      effects =
        [Log INFO Initializing_batch,
         Request POST Batches (JObj [(''batch_name'', JStr ''Test Batch''), (''algorithm'', JNum 26)]),
         Log INFO Uploading_files,
         Isdir ''input.tif'', Getsize ''input.tif'',
         Upload ''ns'' ''bucket'' ''prefix/input.tif'' ''input.tif'' 2097152,
         Progress ''input.tif'' 100, Done ''input.tif'' ''OK'',
         Log INFO (Uploaded ''input.tif'' (Some ''e2'')),
         Log INFO Starting_batch, Request POST (Batch (JNum 7)) (JObj []),
         Log INFO Checking_status, Request GET (Batch (JNum 7)) JNull],
      workers = []\<rparr>"
    by (simp add: d4)
  have r: "result (run_batch demo 26 ''input.tif'' (Some ''Test Batch'')) =
      Inr (JObj [(''batch_id'', JNum 7),
                 (''start_response'', JObj [(''started'', JBool True)]),
                 (''status'', JObj [(''status'', JStr ''running'')])])"
    by (simp add: 1)
  from D[THEN conjunct2, THEN conjunct2, THEN conjunct2, THEN conjunct1, rule_format, OF r]
  have 2: "remdups_adj (steps (run_batch demo 26 ''input.tif'' (Some ''Test Batch''))) =
     [Create, Uploading, Start, Status]" .
  have f1: "fst (init_batch demo_offline (Some ''Test Batch'') 26) =
      Inl (RequestException ''connection refused'')"
    by (simp add: demo_simps service_simps)
  from F[THEN conjunct2, THEN conjunct1, rule_format, OF f1]
  have 3: "result (run_batch demo_offline 26 ''input.tif'' (Some ''Test Batch'')) =
      Inl (RequestException ''connection refused'') \<and>
    steps (run_batch demo_offline 26 ''input.tif'' (Some ''Test Batch'')) = [Create] \<and>
    workers (run_batch demo_offline 26 ''input.tif'' (Some ''Test Batch'')) = []"
    by simp
  have b1: "fst (init_batch demo_bad_target (Some ''Test Batch'') 26) = Inr ?bad"
    by (simp add: demo_simps service_simps)
  have b2: "subscript ?bad ''object_storage_url'' = Inr (JStr ''https://host/n'')"
    by simp
  have b3: "subscript ?bad ''batch_id'' = Inr (JNum 7)"
    by simp
  have b4: "ret (upload_files_of demo_bad_target (JStr ''https://host/n'') ''input.tif'') = Inl IndexError"
    by (simp add: demo_simps service_simps)
  from B[THEN conjunct2, THEN conjunct2, THEN conjunct1, rule_format, OF b1 b2 b3 b4]
  have 4: "result (run_batch demo_bad_target 26 ''input.tif'' (Some ''Test Batch'')) = Inl IndexError \<and>
    steps (run_batch demo_bad_target 26 ''input.tif'' (Some ''Test Batch'')) = [Create, Uploading] \<and>
    workers (run_batch demo_bad_target 26 ''input.tif'' (Some ''Test Batch'')) = []"
    by simp
  from 1 2 3 4 show ?thesis
    by simp
qed

subsection \<open>SimpleProgress\<close>

lemma SimpleProgress_call_accumulates:
  "uploaded (fst (SimpleProgress_call self n)) = uploaded self + n"
  by (simp add: SimpleProgress_call_def Let_def)

text \<open>
  C9. The claim is that no operation of the tracker raises, for any total byte size. A
  tracker built for a file of zero bytes raises ZeroDivisionError on its first increment,
  also for an increment of zero bytes.
\<close>

theorem SimpleProgress_call_zero_total:
  "snd (SimpleProgress_call (SimpleProgress_init 0 ''empty.bin'') 0) = Inl ZeroDivisionError"
  by (simp add: SimpleProgress_call_def SimpleProgress_init_def)

end
